theory Spec2Isabelle
  imports Complex_Main "HOL-Library.Extended_Nat" "HOL-Library.Monad_Syntax"
begin

section \<open>Strings\<close>

text \<open>
  A JavaScript string is modelled as a \<^typ>\<open>string\<close>: a list of code units, here the code
  units below 256.  \<open>String.prototype.trim\<close> removes the white space and line
  terminators of ECMAScript at both ends; below 256 these are TAB, LF, VT, FF, CR,
  SPACE and NBSP.
\<close>

definition is_js_space :: "char \<Rightarrow> bool" where
  "is_js_space c =
     (c = CHR 0x09 \<or> c = CHR 0x0A \<or> c = CHR 0x0B \<or> c = CHR 0x0C \<or> c = CHR 0x0D \<or>
      c = CHR 0x20 \<or> c = CHR 0xA0)"

definition trim :: "string \<Rightarrow> string" where
  "trim s = rev (dropWhile is_js_space (rev (dropWhile is_js_space s)))"

text \<open>
  \<^verbatim>\<open>text.replace(/<img[^>]*>/g, '')\<close> (script.js line 99).  A match of the pattern at
  the head of \<open>cs\<close> is the four characters \<^verbatim>\<open><img\<close>, then the characters up to the
  first \<^verbatim>\<open>>\<close>, then that \<^verbatim>\<open>>\<close>; there is none when no \<^verbatim>\<open>>\<close> follows.
  \<open>img_match\<close> returns what follows the match.  The pattern has no \<open>i\<close> flag: it is
  case sensitive.
\<close>

definition img_match :: "string \<Rightarrow> string option" where
  "img_match cs =
     (if take 4 cs = ''<img'' \<and> CHR ''>'' \<in> set (drop 4 cs)
      then Some (tl (dropWhile (\<lambda>c. c \<noteq> CHR ''>'') (drop 4 cs)))
      else None)"

lemma img_match_shorter: "img_match cs = Some rest \<Longrightarrow> length rest < length cs"
proof -
  assume m: "img_match cs = Some rest"
  then have r: "rest = tl (dropWhile (\<lambda>c. c \<noteq> CHR ''>'') (drop 4 cs))"
    and t: "take 4 cs = ''<img''"
    by (auto simp: img_match_def split: if_splits)
  have "length rest \<le> length (dropWhile (\<lambda>c. c \<noteq> CHR ''>'') (drop 4 cs))"
    by (simp add: r)
  also have "\<dots> \<le> length (drop 4 cs)"
    by (rule length_dropWhile_le)
  also have "\<dots> < length cs"
    using t by (cases cs) auto
  finally show ?thesis .
qed

text \<open>
  The global replacement scans from left to right: the leftmost match is removed and the
  scan goes on behind it; the text already emitted is never scanned again.
\<close>

function strip_img :: "string \<Rightarrow> string" where
  "strip_img [] = []"
| "strip_img (c # cs) =
     (case img_match (c # cs) of
        Some rest \<Rightarrow> strip_img rest
      | None \<Rightarrow> c # strip_img cs)"
  by pat_completeness auto

termination
  by (relation "measure length") (auto dest: img_match_shorter)

text \<open>Whether the pattern matches somewhere in a string.\<close>

fun has_img_tag :: "string \<Rightarrow> bool" where
  "has_img_tag [] = False"
| "has_img_tag (c # cs) = (img_match (c # cs) \<noteq> None \<or> has_img_tag cs)"

text \<open>What \<open>addMessageToChatbox\<close> assigns to \<open>innerHTML\<close> (line 99).\<close>

definition display_html :: "string \<Rightarrow> string" where
  "display_html s = trim (strip_img s)"

subsection \<open>Decimal numerals\<close>

text \<open>
  \<open>String(n)\<close> of a non-negative integer below \<open>10^21\<close> is its decimal numeral; the
  clock \<open>Date.now()\<close> is in that range.
\<close>

definition digit_char :: "nat \<Rightarrow> char" where
  "digit_char d = ''0123456789'' ! d"

function show_nat :: "nat \<Rightarrow> string" where
  "show_nat n = (if n < 10 then [digit_char n] else show_nat (n div 10) @ [digit_char (n mod 10)])"
  by pat_completeness auto

termination
  by (relation "measure id") auto

declare show_nat.simps [simp del]

definition show_int :: "int \<Rightarrow> string" where
  "show_int i = (if i < 0 then CHR ''-'' # show_nat (nat (- i)) else show_nat (nat i))"

definition is_digit :: "char \<Rightarrow> bool" where
  "is_digit c = (48 \<le> (of_char c :: nat) \<and> (of_char c :: nat) \<le> 57)"

definition digit_val :: "char \<Rightarrow> nat" where
  "digit_val c = of_char c - 48"

definition read_nat :: "string \<Rightarrow> nat" where
  "read_nat ds = foldl (\<lambda>acc c. 10 * acc + digit_val c) 0 ds"

section \<open>JSON values and the JavaScript operations the script applies to them\<close>

text \<open>
  The values \<open>response.json()\<close> and \<open>JSON.parse\<close> produce.  Numbers are restricted to
  the integers JavaScript represents exactly, where \<open>String(n)\<close> is the decimal numeral
  (the script never computes with a number).  An object is the list of its members; the
  keys of an object the platform has parsed are distinct.
\<close>

datatype json =
    JNull
  | JBool bool
  | JNum int
  | JStr string
  | JArr "json list"
  | JObj "(string \<times> json) list"

text \<open>The exceptions the script can meet.\<close>

datatype exn =
    TypeError
  | SyntaxError
  | FetchError
  | Error string
  | LibraryError

text \<open>ToBoolean.\<close>

fun truthy :: "json \<Rightarrow> bool" where
  "truthy JNull = False"
| "truthy (JBool b) = b"
| "truthy (JNum n) = (n \<noteq> 0)"
| "truthy (JStr s) = (s \<noteq> [])"
| "truthy (JArr xs) = True"
| "truthy (JObj kvs) = True"

text \<open>
  \<open>x.name\<close> for a value \<open>x\<close> that is not \<open>null\<close>, and for the property names the script
  reads (\<open>table\<close>, \<open>reply\<close>, \<open>meta\<close>, \<open>state\<close>, \<open>act_name\<close>, \<open>da\<close>, \<open>effective_from\<close>,
  \<open>pdf_url\<close>, \<open>length\<close>); \<open>None\<close> is \<open>undefined\<close>.  Of these names, strings and arrays
  have \<open>length\<close>; numbers and booleans have none.
\<close>

fun js_get :: "json \<Rightarrow> string \<Rightarrow> json option" where
  "js_get (JObj kvs) k = map_of kvs k"
| "js_get (JArr xs) k = (if k = ''length'' then Some (JNum (int (length xs))) else None)"
| "js_get (JStr s) k = (if k = ''length'' then Some (JNum (int (length s))) else None)"
| "js_get _ k = None"

text \<open>\<open>x[i]\<close> for a value \<open>x\<close> that is not \<open>null\<close>.\<close>

fun js_index :: "json \<Rightarrow> nat \<Rightarrow> json option" where
  "js_index (JArr xs) i = (if i < length xs then Some (xs ! i) else None)"
| "js_index (JStr s) i = (if i < length s then Some (JStr [s ! i]) else None)"
| "js_index (JObj kvs) i = map_of kvs (show_nat i)"
| "js_index _ i = None"

text \<open>
  ToString, as a template literal and \<open>Array.prototype.join\<close> apply it; \<open>None\<close> is a
  \<open>TypeError\<close>.  An array is joined with commas, \<open>null\<close> elements as empty strings.  A
  plain object prints as \<open>[object Object]\<close> through \<open>Object.prototype.toString\<close>; an own
  member named \<open>toString\<close> shadows that function with a value that cannot be called, and
  the conversion throws.
\<close>

fun join_with :: "string \<Rightarrow> string list \<Rightarrow> string" where
  "join_with sep [] = []"
| "join_with sep [x] = x"
| "join_with sep (x # y # ys) = x @ sep @ join_with sep (y # ys)"

fun js_to_string :: "json \<Rightarrow> string option" where
  "js_to_string JNull = Some ''null''"
| "js_to_string (JBool b) = Some (if b then ''true'' else ''false'')"
| "js_to_string (JNum n) = Some (show_int n)"
| "js_to_string (JStr s) = Some s"
| "js_to_string (JArr xs) =
     map_option (join_with '','')
       (those (map (\<lambda>x. case x of JNull \<Rightarrow> Some [] | _ \<Rightarrow> js_to_string x) xs))"
| "js_to_string (JObj kvs) =
     (if map_of kvs ''toString'' = None then Some ''[object Object]'' else None)"

text \<open>The interpolation \<open>${v}\<close> of a property that may be \<open>undefined\<close>.\<close>

definition template_string :: "json option \<Rightarrow> string option" where
  "template_string v = (case v of None \<Rightarrow> Some ''undefined'' | Some x \<Rightarrow> js_to_string x)"

text \<open>
  The relational comparisons of the script, \<open>x.length > 0\<close> (line 67) and
  \<open>i < x.length\<close> (line 160), compare an index with ToNumber of \<open>x.length\<close>.  What they
  need of that number is how many indices \<open>0, 1, 2, \<dots>\<close> lie below it: \<open>index_bound\<close>,
  with \<open>\<infinity>\<close> for \<open>Infinity\<close>, \<open>0\<close> for \<open>NaN\<close> and for \<open>undefined\<close>, and \<open>None\<close> when
  the conversion throws.  Reading a numeral out of a string is floating point arithmetic
  of the platform: it is the parameter \<open>B\<close>, the bound a string stands for.
\<close>

definition index_bound :: "(string \<Rightarrow> enat) \<Rightarrow> json option \<Rightarrow> enat option" where
  "index_bound B v =
     (case v of
        None \<Rightarrow> Some 0
      | Some JNull \<Rightarrow> Some 0
      | Some (JBool b) \<Rightarrow> Some (if b then 1 else 0)
      | Some (JNum n) \<Rightarrow> Some (enat (nat n))
      | Some (JStr s) \<Rightarrow> Some (B s)
      | Some (JArr xs) \<Rightarrow> map_option B (js_to_string (JArr xs))
      | Some (JObj kvs) \<Rightarrow> (if map_of kvs ''toString'' = None then Some 0 else None))"

text \<open>\<open>index_bound\<close> of \<open>x.length\<close>, for a value \<open>x\<close> that is not \<open>null\<close>.\<close>

definition length_bound :: "(string \<Rightarrow> enat) \<Rightarrow> json \<Rightarrow> enat option" where
  "length_bound B x = index_bound B (js_get x ''length'')"

section \<open>\<open>JSON.stringify\<close> and \<open>JSON.parse\<close>\<close>

text \<open>
  The table card keeps its payload as two strings in \<open>dataset\<close> (lines 173 and 174) and
  parses them again on a click (lines 178 and 179), so both directions of the platform's
  JSON codec are part of the program's behaviour.  They are modelled on the values of
  type \<^typ>\<open>json\<close>: \<open>JSON.stringify\<close> without indentation, and \<open>JSON.parse\<close> for the JSON
  grammar with integer numbers and with \<open>\u\<close> escapes below 256.
\<close>

definition hex_char :: "nat \<Rightarrow> char" where
  "hex_char d = ''0123456789abcdef'' ! d"

text \<open>QuoteJSONString: the escape of one code unit.\<close>

definition escape_char :: "char \<Rightarrow> string" where
  "escape_char c =
     (if c = CHR 0x22 then [CHR 0x5C, CHR 0x22]
      else if c = CHR 0x5C then [CHR 0x5C, CHR 0x5C]
      else if c = CHR 0x08 then [CHR 0x5C, CHR ''b'']
      else if c = CHR 0x0C then [CHR 0x5C, CHR ''f'']
      else if c = CHR 0x0A then [CHR 0x5C, CHR ''n'']
      else if c = CHR 0x0D then [CHR 0x5C, CHR ''r'']
      else if c = CHR 0x09 then [CHR 0x5C, CHR ''t'']
      else if (of_char c :: nat) < 32
        then [CHR 0x5C, CHR ''u'', CHR ''0'', CHR ''0'',
              hex_char (of_char c div 16), hex_char (of_char c mod 16)]
      else [c])"

definition quote_string :: "string \<Rightarrow> string" where
  "quote_string s = CHR 0x22 # concat (map escape_char s) @ [CHR 0x22]"

fun JSON_stringify :: "json \<Rightarrow> string" where
  "JSON_stringify JNull = ''null''"
| "JSON_stringify (JBool b) = (if b then ''true'' else ''false'')"
| "JSON_stringify (JNum n) = show_int n"
| "JSON_stringify (JStr s) = quote_string s"
| "JSON_stringify (JArr xs) = ''['' @ join_with '','' (map JSON_stringify xs) @ '']''"
| "JSON_stringify (JObj kvs) =
     ''{'' @ join_with '','' (map (\<lambda>(k, v). quote_string k @ '':'' @ JSON_stringify v) kvs) @ ''}''"

subsection \<open>The parser\<close>

definition is_json_ws :: "char \<Rightarrow> bool" where
  "is_json_ws c = (c = CHR 0x20 \<or> c = CHR 0x09 \<or> c = CHR 0x0A \<or> c = CHR 0x0D)"

definition skip_ws :: "string \<Rightarrow> string" where
  "skip_ws cs = dropWhile is_json_ws cs"

definition hex_val :: "char \<Rightarrow> nat option" where
  "hex_val c =
     (let n = (of_char c :: nat) in
      if 48 \<le> n \<and> n \<le> 57 then Some (n - 48)
      else if 97 \<le> n \<and> n \<le> 102 then Some (n - 87)
      else if 65 \<le> n \<and> n \<le> 70 then Some (n - 55)
      else None)"

text \<open>The character a one-letter escape stands for.\<close>

definition unescape_char :: "char \<Rightarrow> char option" where
  "unescape_char e =
     (if e = CHR 0x22 then Some (CHR 0x22)
      else if e = CHR 0x5C then Some (CHR 0x5C)
      else if e = CHR ''/'' then Some (CHR ''/'')
      else if e = CHR ''b'' then Some (CHR 0x08)
      else if e = CHR ''f'' then Some (CHR 0x0C)
      else if e = CHR ''n'' then Some (CHR 0x0A)
      else if e = CHR ''r'' then Some (CHR 0x0D)
      else if e = CHR ''t'' then Some (CHR 0x09)
      else None)"

definition cons_char :: "char \<Rightarrow> (string \<times> string) option \<Rightarrow> (string \<times> string) option" where
  "cons_char c r = (case r of None \<Rightarrow> None | Some (s, rest) \<Rightarrow> Some (c # s, rest))"

text \<open>
  The characters of a string literal behind its opening quote: the contents and what
  follows the closing quote.  A control character must be escaped.
\<close>

fun parse_string :: "string \<Rightarrow> (string \<times> string) option" where
  "parse_string [] = None"
| "parse_string (c # cs) =
     (if c = CHR 0x22 then Some ([], cs)
      else if c = CHR 0x5C then
        (case cs of
           [] \<Rightarrow> None
         | e # cs1 \<Rightarrow>
             if e = CHR ''u'' then
               (case cs1 of
                  h1 # h2 # h3 # h4 # cs2 \<Rightarrow>
                    (case (hex_val h1, hex_val h2, hex_val h3, hex_val h4) of
                       (Some a, Some b, Some c', Some d) \<Rightarrow>
                         if a = 0 \<and> b = 0
                         then cons_char (char_of (16 * c' + d)) (parse_string cs2)
                         else None
                     | _ \<Rightarrow> None)
                | _ \<Rightarrow> None)
             else (case unescape_char e of
                     None \<Rightarrow> None
                   | Some ch \<Rightarrow> cons_char ch (parse_string cs1)))
      else if (of_char c :: nat) < 32 then None
      else cons_char c (parse_string cs))"

text \<open>
  A number: an optional minus sign and a numeral without a leading zero.  A fraction or
  an exponent leaves the integers of the model and is refused.
\<close>

definition parse_number :: "string \<Rightarrow> (json \<times> string) option" where
  "parse_number cs =
     (let neg = (cs \<noteq> [] \<and> hd cs = CHR ''-'');
          body = (if neg then tl cs else cs);
          ds = takeWhile is_digit body;
          rest = dropWhile is_digit body
      in if ds = [] \<or> (length ds > 1 \<and> hd ds = CHR ''0'') then None
         else if rest \<noteq> [] \<and> (hd rest = CHR ''.'' \<or> hd rest = CHR ''e'' \<or> hd rest = CHR ''E'')
           then None
         else Some (JNum (if neg then - int (read_nat ds) else int (read_nat ds)), rest))"

text \<open>
  Defining a member: a key that is already there keeps its place and takes the new
  value, as in the object \<open>JSON.parse\<close> builds.
\<close>

fun obj_put :: "string \<Rightarrow> json \<Rightarrow> (string \<times> json) list \<Rightarrow> (string \<times> json) list" where
  "obj_put k v [] = [(k, v)]"
| "obj_put k v ((k', v') # kvs) =
     (if k = k' then (k, v) # kvs else (k', v') # obj_put k v kvs)"

definition obj_of_members :: "(string \<times> json) list \<Rightarrow> (string \<times> json) list" where
  "obj_of_members kvs = foldl (\<lambda>acc (k, v). obj_put k v acc) [] kvs"

text \<open>
  The recursive descent, with fuel for the recursion: \<open>parse_value\<close> reads one value,
  \<open>parse_elems\<close> the elements of a non-empty array up to its bracket, \<open>parse_members\<close>
  the members of a non-empty object up to its brace.  Each call that takes fuel consumes
  a character, so the length of the input is fuel enough.
\<close>

fun parse_value :: "nat \<Rightarrow> string \<Rightarrow> (json \<times> string) option"
  and parse_elems :: "nat \<Rightarrow> string \<Rightarrow> (json list \<times> string) option"
  and parse_members :: "nat \<Rightarrow> string \<Rightarrow> ((string \<times> json) list \<times> string) option"
where
  "parse_value 0 cs = None"
| "parse_value (Suc f) cs =
     (case skip_ws cs of
        [] \<Rightarrow> None
      | c # r \<Rightarrow>
          if c = CHR 0x22 then
            (case parse_string r of None \<Rightarrow> None | Some (s, r1) \<Rightarrow> Some (JStr s, r1))
          else if c = CHR ''['' then
            (case skip_ws r of
               [] \<Rightarrow> None
             | d # r1 \<Rightarrow>
                 if d = CHR '']'' then Some (JArr [], r1)
                 else (case parse_elems f r of
                         None \<Rightarrow> None
                       | Some (xs, r2) \<Rightarrow> Some (JArr xs, r2)))
          else if c = CHR ''{'' then
            (case skip_ws r of
               [] \<Rightarrow> None
             | d # r1 \<Rightarrow>
                 if d = CHR ''}'' then Some (JObj [], r1)
                 else (case parse_members f r of
                         None \<Rightarrow> None
                       | Some (kvs, r2) \<Rightarrow> Some (JObj (obj_of_members kvs), r2)))
          else if take 4 (c # r) = ''null'' then Some (JNull, drop 3 r)
          else if take 4 (c # r) = ''true'' then Some (JBool True, drop 3 r)
          else if take 5 (c # r) = ''false'' then Some (JBool False, drop 4 r)
          else parse_number (c # r))"
| "parse_elems 0 cs = None"
| "parse_elems (Suc f) cs =
     (case parse_value f cs of
        None \<Rightarrow> None
      | Some (x, r) \<Rightarrow>
          (case skip_ws r of
             [] \<Rightarrow> None
           | d # r1 \<Rightarrow>
               if d = CHR '','' then
                 (case parse_elems f r1 of
                    None \<Rightarrow> None
                  | Some (xs, r2) \<Rightarrow> Some (x # xs, r2))
               else if d = CHR '']'' then Some ([x], r1)
               else None))"
| "parse_members 0 cs = None"
| "parse_members (Suc f) cs =
     (case skip_ws cs of
        [] \<Rightarrow> None
      | c # r \<Rightarrow>
          if c \<noteq> CHR 0x22 then None
          else (case parse_string r of
                  None \<Rightarrow> None
                | Some (k, r1) \<Rightarrow>
                    (case skip_ws r1 of
                       [] \<Rightarrow> None
                     | d # r2 \<Rightarrow>
                         if d \<noteq> CHR '':'' then None
                         else (case parse_value f r2 of
                                 None \<Rightarrow> None
                               | Some (v, r3) \<Rightarrow>
                                   (case skip_ws r3 of
                                      [] \<Rightarrow> None
                                    | e # r4 \<Rightarrow>
                                        if e = CHR '','' then
                                          (case parse_members f r4 of
                                             None \<Rightarrow> None
                                           | Some (kvs, r5) \<Rightarrow> Some ((k, v) # kvs, r5))
                                        else if e = CHR ''}'' then Some ([(k, v)], r4)
                                        else None)))))"

text \<open>\<open>JSON.parse\<close>: one value, and nothing but white space behind it; \<open>None\<close> is a
  \<open>SyntaxError\<close>.\<close>

definition JSON_parse :: "string \<Rightarrow> json option" where
  "JSON_parse s =
     (case parse_value (Suc (length s)) s of
        None \<Rightarrow> None
      | Some (v, rest) \<Rightarrow> if skip_ws rest = [] then Some v else None)"

section \<open>The page\<close>

text \<open>
  The state the script reads and writes: the children of \<open>#chat-box\<close>, the variable
  \<open>sessionId\<close> (\<open>None\<close> is \<open>undefined\<close>), \<open>style.display\<close> of \<open>#category-buttons\<close> (\<open>None\<close> when
  the page has no such element: lines 34 and 47 test for it), the value of \<open>#user-input\<close>,
  and what leaves the page: the calls of \<open>console.error\<close>, of \<open>alert\<close> and of \<open>fetch\<close>, and the
  documents handed to \<open>doc.save\<close>.  The scroll position is not modelled.
\<close>

datatype sender = User | Bot

text \<open>
  The meta summary of a table card (lines 132 to 148): the four interpolated values, and
  the \<open>href\<close> of the notification link when there is one.
\<close>

record meta_box =
  state_text :: string
  act_name_text :: string
  da_text :: string
  effective_from_text :: string
  link_href :: "string option"

record table_card =
  card_meta :: "meta_box option"
  table_html :: string
  dataset_tabledata :: string
  dataset_meta :: string

text \<open>
  What the script takes from the browser and this theory does not write out:
  \<^item> \<open>string_bound\<close>: the parameter \<open>B\<close> of \<open>index_bound\<close>, the numeral a string stands
    for;
  \<^item> \<open>indicator_ids\<close>: the script assigns its texts to \<open>innerHTML\<close> (line 99, and lines
    132 and 165 for a card), so the browser parses them as markup, and
    \<open>document.getElementById\<close> (line 253) finds the elements it has made.  This
    parameter is the number of elements with the id \<open>typing-indicator-wrapper\<close> in the
    markup of a string that are not inside another such element: a removal takes an
    element with all it contains, so it is the number of removals the markup absorbs;
  \<^item> \<open>meta_indicator_ids\<close>: the same number for the markup of a meta summary.
  Markup is taken to be passive: an element is found by its id, and nothing in it runs.
\<close>

record platform =
  string_bound :: "string \<Rightarrow> enat"
  indicator_ids :: "string \<Rightarrow> nat"
  meta_indicator_ids :: "meta_box \<Rightarrow> nat"

text \<open>A text without \<^verbatim>\<open><\<close> has no tag, so no element.\<close>

definition markup_ids :: "platform \<Rightarrow> string \<Rightarrow> nat" where
  "markup_ids P html = (if CHR ''<'' \<in> set html then indicator_ids P html else 0)"

definition card_ids :: "platform \<Rightarrow> meta_box option \<Rightarrow> string \<Rightarrow> nat" where
  "card_ids P mb html =
     (case mb of None \<Rightarrow> 0 | Some m \<Rightarrow> meta_indicator_ids P m) + markup_ids P html"

text \<open>
  A child of the chat box: a message bubble with its sender, the \<open>id\<close> of its wrapper and
  the markup assigned to its text (the avatar and the classes follow from the sender),
  or a table card.  The last component counts the elements with the id
  \<open>typing-indicator-wrapper\<close> that the markup has put inside the node and that are still
  there.
\<close>

datatype node =
    Message sender "string option" string nat
  | Card table_card nat

fun node_id :: "node \<Rightarrow> string option" where
  "node_id (Message who wid html k) = wid"
| "node_id (Card c k) = None"

fun indicator_inside :: "node \<Rightarrow> nat" where
  "indicator_inside (Message who wid html k) = k"
| "indicator_inside (Card c k) = k"

fun one_less_inside :: "node \<Rightarrow> node" where
  "one_less_inside (Message who wid html k) = Message who wid html (k - 1)"
| "one_less_inside (Card c k) = Card c (k - 1)"

record request =
  message :: string
  session_id :: "string option"

text \<open>The calls a document of the PDF library receives (lines 195 to 244); the fixed
  styles of the table are left out.\<close>

datatype pdf_op =
    NewDoc
  | SetFontSize nat
  | SetTextColor nat nat nat
  | DrawText string real real "real option"
  | AutoTable "json option" json real
  | Save string

record page =
  chatBox :: "node list"
  sessionId :: "string option"
  categoryBtnContainer :: "string option"
  userInput :: string
  console :: "(string \<times> exn) list"
  alerts :: "string list"
  requests :: "request list"
  downloads :: "(string \<times> pdf_op list) list"

subsection \<open>\<open>removeTypingIndicator\<close> and \<open>addMessageToChatbox\<close>\<close>

text \<open>
  Lines 252 to 255.  \<open>document.getElementById\<close> returns the first element with the id in
  document order, and \<open>el.remove()\<close> takes it out: the first node of the chat box whose
  wrapper has the id goes as a whole, unless an earlier node, or that node itself
  (its wrapper comes first), holds an element with the id inside; then that element goes.
  Elements of the page outside the chat box are taken not to have the id.
\<close>

fun remove_first_indicator :: "node list \<Rightarrow> node list" where
  "remove_first_indicator [] = []"
| "remove_first_indicator (n # ns) =
     (if node_id n = Some ''typing-indicator-wrapper'' then ns
      else if 0 < indicator_inside n then one_less_inside n # ns
      else n # remove_first_indicator ns)"

definition removeTypingIndicator :: "page \<Rightarrow> page" where
  "removeTypingIndicator s = s\<lparr>chatBox := remove_first_indicator (chatBox s)\<rparr>"

text \<open>Lines 85 to 113.  The wrapper takes the id only when the id is truthy.\<close>

definition addMessageToChatbox ::
  "platform \<Rightarrow> string \<Rightarrow> sender \<Rightarrow> string option \<Rightarrow> page \<Rightarrow> page" where
  "addMessageToChatbox P txt who wid s =
     (let s1 = (if wid \<noteq> Some ''typing-indicator-wrapper'' then removeTypingIndicator s else s);
          wrapper_id = (case wid of None \<Rightarrow> None | Some i \<Rightarrow> if i = [] then None else Some i)
      in s1\<lparr>chatBox := chatBox s1 @
               [Message who wrapper_id (display_html txt) (markup_ids P (display_html txt))]\<rparr>)"

subsection \<open>\<open>startNewSession\<close>\<close>

definition greeting :: string where
  "greeting = ''Hello! I'm the SLCI assistant (Tara). How can I help you today?''"

text \<open>Lines 30 to 39; \<open>now\<close> is what \<open>Date.now()\<close> returns.\<close>

definition startNewSession :: "platform \<Rightarrow> nat \<Rightarrow> page \<Rightarrow> page" where
  "startNewSession P now s =
     (let s1 = s\<lparr>chatBox := []\<rparr>;
          s2 = s1\<lparr>sessionId := Some (''session_'' @ show_nat now)\<rparr>;
          s3 = (case categoryBtnContainer s2 of
                  None \<Rightarrow> s2
                | Some d \<Rightarrow> s2\<lparr>categoryBtnContainer := Some ''flex''\<rparr>)
      in addMessageToChatbox P greeting Bot None s3)"

subsection \<open>\<open>addTableToChat\<close>\<close>

text \<open>
  Lines 116 to 189.  Every exception the function can throw is a \<open>TypeError\<close> (a
  conversion to a string that throws, or \<open>.map\<close> of something that is not an array), and
  all of them come before the card is appended at line 187: \<open>None\<close> is that exception.
\<close>

text \<open>The meta summary (lines 128 to 151): \<open>Some None\<close> when \<open>meta\<close> is falsy.\<close>

definition render_meta :: "json \<Rightarrow> meta_box option option" where
  "render_meta meta =
     (if \<not> truthy meta then Some None
      else do {
        st \<leftarrow> template_string (js_get meta ''state'');
        act \<leftarrow> template_string (js_get meta ''act_name'');
        da \<leftarrow> template_string (js_get meta ''da'');
        eff \<leftarrow> template_string (js_get meta ''effective_from'');
        href \<leftarrow> (case js_get meta ''pdf_url'' of
                   None \<Rightarrow> Some None
                 | Some u \<Rightarrow> if truthy u then map_option Some (js_to_string u) else Some None);
        Some (Some \<lparr>state_text = st, act_name_text = act, da_text = da,
                    effective_from_text = eff, link_href = href\<rparr>)
      })"

text \<open>\<^verbatim>\<open>cells.map(c => `<tag>${c}</tag>`).join("")\<close>.\<close>

definition cells_html :: "string \<Rightarrow> json list \<Rightarrow> string option" where
  "cells_html tag cells =
     map_option concat
       (those (map (\<lambda>c. map_option (\<lambda>t. ''<'' @ tag @ ''>'' @ t @ ''</'' @ tag @ ''>'')
                                   (js_to_string c)) cells))"

text \<open>The loop of lines 160 to 162, from index \<open>i\<close>, for \<open>n\<close> more rounds.\<close>

fun rows_html :: "json \<Rightarrow> nat \<Rightarrow> nat \<Rightarrow> string option" where
  "rows_html td i 0 = Some []"
| "rows_html td i (Suc n) =
     (case js_index td i of
        Some (JArr cells) \<Rightarrow> do {
          r \<leftarrow> cells_html ''td'' cells;
          rest \<leftarrow> rows_html td (Suc i) n;
          Some (''<tr>'' @ r @ ''</tr>'' @ rest)
        }
      | _ \<Rightarrow> None)"

text \<open>
  Lines 157 to 164.  The loop runs while \<open>i < tableData.length\<close>.  Under the bound \<open>\<infinity>\<close>
  (an object whose \<open>length\<close> reads as \<open>Infinity\<close>) it only ends by an exception, and it
  does end: the object has finitely many members, so some index is missing.
\<close>

definition render_table :: "(string \<Rightarrow> enat) \<Rightarrow> json \<Rightarrow> string option" where
  "render_table B tableData =
     (case js_index tableData 0 of
        Some (JArr hs) \<Rightarrow> do {
          h \<leftarrow> cells_html ''th'' hs;
          bound \<leftarrow> length_bound B tableData;
          body \<leftarrow> (case bound of enat k \<Rightarrow> rows_html tableData 1 (k - 1) | \<infinity> \<Rightarrow> None);
          Some (''<table class='' @ [CHR 0x22] @ ''wage-table'' @ [CHR 0x22] @ ''>''
                @ ''<tr>'' @ h @ ''</tr>'' @ body @ ''</table>'')
        }
      | _ \<Rightarrow> None)"

definition addTableToChat :: "platform \<Rightarrow> json \<Rightarrow> json \<Rightarrow> page \<Rightarrow> page option" where
  "addTableToChat P tableData meta s = do {
     mb \<leftarrow> render_meta meta;
     html \<leftarrow> render_table (string_bound P) tableData;
     Some (s\<lparr>chatBox := chatBox s @
               [Card \<lparr>card_meta = mb, table_html = html,
                      dataset_tabledata = JSON_stringify tableData,
                      dataset_meta = JSON_stringify meta\<rparr>
                  (card_ids P mb html)]\<rparr>)
   }"

subsection \<open>\<open>sendChatMessage\<close>\<close>

text \<open>
  How the awaited \<open>fetch\<close> ends: it rejects, or it gives a response with its \<open>ok\<close> flag
  and with what \<open>response.json()\<close> makes of the body (\<open>None\<close> when the body is not JSON).
\<close>

datatype fetch_outcome = Rejected | Responded bool "json option"

text \<open>
  The condition of line 67, \<open>data.table && data.table.length > 0\<close>: the table to show when
  it holds, \<open>Some None\<close> when it does not, \<open>None\<close> when evaluating it throws.
\<close>

definition table_to_show :: "(string \<Rightarrow> enat) \<Rightarrow> json option \<Rightarrow> json option option" where
  "table_to_show B tbl =
     (case tbl of
        None \<Rightarrow> Some None
      | Some t \<Rightarrow>
          if \<not> truthy t then Some None
          else (case length_bound B t of
                  None \<Rightarrow> None
                | Some b \<Rightarrow> Some (if 0 < b then Some t else None)))"

text \<open>
  The condition of line 73, \<open>data.reply && data.reply.trim() !== ""\<close>.  Only a string has
  \<open>trim\<close>: for any other truthy value the call throws.
\<close>

definition reply_to_show :: "json option \<Rightarrow> string option option" where
  "reply_to_show r =
     (case r of
        None \<Rightarrow> Some None
      | Some v \<Rightarrow>
          if \<not> truthy v then Some None
          else (case v of
                  JStr t \<Rightarrow> Some (if trim t \<noteq> [] then Some t else None)
                | _ \<Rightarrow> None))"

text \<open>\<open>data.meta || null\<close>.\<close>

definition or_null :: "json option \<Rightarrow> json" where
  "or_null m = (case m of None \<Rightarrow> JNull | Some v \<Rightarrow> if truthy v then v else JNull)"

definition apology :: string where
  "apology = ''Sorry, I'm having trouble connecting. Please try again.''"

text \<open>
  Lines 43 to 59, up to the \<open>await\<close>: \<open>None\<close> when the function returns at line 44, else
  the page at the moment the request has been issued.
\<close>

definition sendChatMessage_begin :: "platform \<Rightarrow> nat \<Rightarrow> page \<Rightarrow> page option" where
  "sendChatMessage_begin P now s =
     (let userText = trim (userInput s) in
      if userText = [] then None
      else
        let s1 = (if sessionId s = None \<or> sessionId s = Some [] then startNewSession P now s else s);
            s2 = (case categoryBtnContainer s1 of
                    None \<Rightarrow> s1
                  | Some d \<Rightarrow> s1\<lparr>categoryBtnContainer := Some ''none''\<rparr>);
            s3 = addMessageToChatbox P userText User None s2;
            s4 = s3\<lparr>userInput := []\<rparr>;
            s5 = addMessageToChatbox P ''Typing...'' Bot (Some ''typing-indicator-wrapper'') s4
        in Some (s5\<lparr>requests := requests s5 @
                   [\<lparr>message = userText, session_id = sessionId s5\<rparr>]\<rparr>))"

text \<open>
  The \<open>try\<close> block behind the \<open>await\<close> (lines 61 to 75): the page where it ends, and the
  exception when it ends by one.
\<close>

definition try_block :: "platform \<Rightarrow> fetch_outcome \<Rightarrow> page \<Rightarrow> page \<times> exn option" where
  "try_block P outcome s =
     (case outcome of
        Rejected \<Rightarrow> (s, Some FetchError)
      | Responded ok body \<Rightarrow>
          if \<not> ok then (s, Some (Error ''API request failed''))
          else
            (case body of
               None \<Rightarrow> (s, Some SyntaxError)
             | Some data \<Rightarrow>
                 let s1 = removeTypingIndicator s in
                 if data = JNull then (s1, Some TypeError)
                 else
                   (case table_to_show (string_bound P) (js_get data ''table'') of
                      None \<Rightarrow> (s1, Some TypeError)
                    | Some (Some t) \<Rightarrow>
                        (case addTableToChat P t (or_null (js_get data ''meta'')) s1 of
                           None \<Rightarrow> (s1, Some TypeError)
                         | Some s2 \<Rightarrow> (s2, None))
                    | Some None \<Rightarrow>
                        (case reply_to_show (js_get data ''reply'') of
                           None \<Rightarrow> (s1, Some TypeError)
                         | Some None \<Rightarrow> (s1, None)
                         | Some (Some r) \<Rightarrow> (addMessageToChatbox P r Bot None s1, None)))))"

text \<open>The \<open>try\<close> block with its \<open>catch\<close> clause (lines 77 to 81).\<close>

definition sendChatMessage_resume :: "platform \<Rightarrow> fetch_outcome \<Rightarrow> page \<Rightarrow> page" where
  "sendChatMessage_resume P outcome s =
     (case try_block P outcome s of
        (s1, None) \<Rightarrow> s1
      | (s1, Some e) \<Rightarrow>
          addMessageToChatbox P apology Bot None
            (removeTypingIndicator (s1\<lparr>console := console s1 @ [(''Chat Error:'', e)]\<rparr>)))"

text \<open>A whole call, with no other event between the request and its outcome.\<close>

definition sendChatMessage :: "platform \<Rightarrow> nat \<Rightarrow> fetch_outcome \<Rightarrow> page \<Rightarrow> page" where
  "sendChatMessage P now outcome s =
     (case sendChatMessage_begin P now s of
        None \<Rightarrow> s
      | Some s1 \<Rightarrow> sendChatMessage_resume P outcome s1)"

section \<open>The PDF export\<close>

text \<open>
  The PDF library is outside the script.  What the export needs of it is whether it is
  loaded (\<open>window.jspdf\<close>), whether a call throws on the document built so far, and the
  \<open>finalY\<close> that \<open>doc.lastAutoTable\<close> reports after the calls made (\<open>None\<close> when there is no
  \<open>lastAutoTable\<close>).  A document is the list of the calls it has received.
\<close>

record pdf_lib =
  loaded :: bool
  throws :: "pdf_op list \<Rightarrow> pdf_op \<Rightarrow> bool"
  finalY :: "pdf_op list \<Rightarrow> real option"

definition bindE :: "exn + 'a \<Rightarrow> ('a \<Rightarrow> exn + 'b) \<Rightarrow> exn + 'b" where
  "bindE r f = (case r of Inl e \<Rightarrow> Inl e | Inr x \<Rightarrow> f x)"

definition or_type_error :: "'a option \<Rightarrow> exn + 'a" where
  "or_type_error r = (case r of None \<Rightarrow> Inl TypeError | Some x \<Rightarrow> Inr x)"

definition doc_call :: "pdf_lib \<Rightarrow> pdf_op \<Rightarrow> pdf_op list \<Rightarrow> exn + pdf_op list" where
  "doc_call L c doc = (if throws L doc c then Inl LibraryError else Inr (doc @ [c]))"

fun doc_calls :: "pdf_lib \<Rightarrow> pdf_op list \<Rightarrow> pdf_op list \<Rightarrow> exn + pdf_op list" where
  "doc_calls L [] doc = Inr doc"
| "doc_calls L (c # cs) doc = bindE (doc_call L c doc) (doc_calls L cs)"

text \<open>Lines 195 to 208.\<close>

definition title_ops :: "pdf_op list" where
  "title_ops =
     [NewDoc,
      SetFontSize 18, SetTextColor 0 100 0,
      DrawText ''Shakti Legal Compliance India (SLCI)'' 14 12 None,
      SetFontSize 15, SetTextColor 0 0 0,
      DrawText ''Minimum Wage Details Report'' 14 22 None]"

text \<open>Lines 211 to 222: the document and \<open>yPos\<close> behind the meta block.\<close>

definition url_line :: "pdf_lib \<Rightarrow> json \<Rightarrow> pdf_op list \<Rightarrow> exn + (pdf_op list \<times> real)" where
  "url_line L u d3 =
     bindE (doc_call L (SetTextColor 0 0 255) d3) (\<lambda>d4.
     bindE (or_type_error (js_to_string u)) (\<lambda>url.
     bindE (doc_call L (DrawText (''Govt Notification PDF: '' @ url) 14 42 None) d4) (\<lambda>d5.
     bindE (doc_call L (SetTextColor 0 0 0) d5) (\<lambda>d6.
     Inr (d6, 52)))))"

definition meta_block :: "pdf_lib \<Rightarrow> json \<Rightarrow> pdf_op list \<Rightarrow> exn + (pdf_op list \<times> real)" where
  "meta_block L meta doc =
     (if \<not> truthy meta then Inr (doc, 30)
      else
        bindE (doc_call L (SetFontSize 11) doc) (\<lambda>d1.
        bindE (or_type_error (template_string (js_get meta ''state''))) (\<lambda>st.
        bindE (doc_call L (DrawText (''State: '' @ st) 14 30 None) d1) (\<lambda>d2.
        bindE (or_type_error (template_string (js_get meta ''effective_from''))) (\<lambda>eff.
        bindE (doc_call L (DrawText (''Effective From: '' @ eff) 14 36 None) d2) (\<lambda>d3.
        (case js_get meta ''pdf_url'' of
           None \<Rightarrow> Inr (d3, 42)
         | Some u \<Rightarrow> if truthy u then url_line L u d3 else Inr (d3, 42))))))))"

text \<open>
  The arguments \<open>tableData[0]\<close> and \<open>tableData.slice(1)\<close> of lines 226 and 227.  Arrays and
  strings have \<open>slice\<close>; \<open>null\<close> has no properties.
\<close>

definition table_args :: "json \<Rightarrow> exn + (json option \<times> json)" where
  "table_args tableData =
     (case tableData of
        JArr xs \<Rightarrow> Inr (js_index tableData 0, JArr (drop 1 xs))
      | JStr t \<Rightarrow> Inr (js_index tableData 0, JStr (drop 1 t))
      | _ \<Rightarrow> Inl TypeError)"

definition disclaimer :: string where
  "disclaimer = ''Disclaimer: This data is fetched automatically via API. Please verify with official State Labour Department website or government published PDF.''"

text \<open>\<^verbatim>\<open>`Wage_Details_${meta?.state || ""}.pdf`\<close> (line 244).\<close>

definition pdf_filename :: "json \<Rightarrow> string option" where
  "pdf_filename meta =
     (case (if meta = JNull then None else js_get meta ''state'') of
        None \<Rightarrow> Some ''Wage_Details_.pdf''
      | Some st \<Rightarrow>
          if truthy st then map_option (\<lambda>t. ''Wage_Details_'' @ t @ ''.pdf'') (js_to_string st)
          else Some ''Wage_Details_.pdf'')"

text \<open>
  The \<open>try\<close> block of \<open>downloadTableAsPDF\<close> (lines 194 to 244): the name and the document
  handed to \<open>doc.save\<close>, or the exception.
\<close>

definition export_pdf :: "pdf_lib \<Rightarrow> json \<Rightarrow> json \<Rightarrow> exn + (string \<times> pdf_op list)" where
  "export_pdf L tableData meta =
     bindE (if loaded L then doc_calls L title_ops [] else Inl TypeError) (\<lambda>doc1.
     bindE (meta_block L meta doc1) (\<lambda>(doc2, yPos).
     bindE (table_args tableData) (\<lambda>(head, body).
     bindE (doc_call L (AutoTable head body yPos) doc2) (\<lambda>doc3.
     bindE (or_type_error (finalY L doc3)) (\<lambda>y.
     bindE (doc_calls L [SetFontSize 10, SetTextColor 180 0 0,
                         DrawText disclaimer 14 (y + 12) (Some 180)] doc3) (\<lambda>doc4.
     bindE (or_type_error (pdf_filename meta)) (\<lambda>name.
     bindE (doc_call L (Save name) doc4) (\<lambda>doc5.
     Inr (name, doc4)))))))))"

text \<open>Lines 192 to 250, with the \<open>catch\<close> clause.\<close>

definition downloadTableAsPDF :: "pdf_lib \<Rightarrow> json \<Rightarrow> json \<Rightarrow> page \<Rightarrow> page" where
  "downloadTableAsPDF L tableData meta s =
     (case export_pdf L tableData meta of
        Inr (name, doc) \<Rightarrow> s\<lparr>downloads := downloads s @ [(name, doc)]\<rparr>
      | Inl e \<Rightarrow>
          s\<lparr>console := console s @ [(''PDF Error:'', e)],
            alerts := alerts s @ [''PDF generation failed. Check console.'']\<rparr>)"

text \<open>
  The click handler of the card's button (lines 176 to 181): the two arguments it parses
  out of \<open>dataset\<close>; \<open>None\<close> when a \<open>JSON.parse\<close> throws (nothing catches that).
\<close>

definition pdf_button_args :: "table_card \<Rightarrow> (json \<times> json) option" where
  "pdf_button_args c = do {
     td \<leftarrow> JSON_parse (dataset_tabledata c);
     m \<leftarrow> JSON_parse (dataset_meta c);
     Some (td, m)
   }"

definition pdf_button_click :: "pdf_lib \<Rightarrow> table_card \<Rightarrow> page \<Rightarrow> page" where
  "pdf_button_click L c s =
     (case pdf_button_args c of
        None \<Rightarrow> s
      | Some (td, m) \<Rightarrow> downloadTableAsPDF L td m s)"

section \<open>The pages the script can reach\<close>

text \<open>
  The script starts a session when the page has loaded (line 257).  From then on the
  page changes by the events the script listens to: the refresh button, an edit of the
  input field, a send (up to its request, and from the answer on), and a click on the
  button of a card.
\<close>

inductive reachable :: "platform \<Rightarrow> page \<Rightarrow> bool" for P where
  loaded_page: "reachable P (startNewSession P now s0)"
| refresh: "reachable P s \<Longrightarrow> reachable P (startNewSession P now s)"
| edit: "reachable P s \<Longrightarrow> reachable P (s\<lparr>userInput := t\<rparr>)"
| send_begin: "reachable P s \<Longrightarrow> sendChatMessage_begin P now s = Some s1 \<Longrightarrow> reachable P s1"
| send_resume: "reachable P s \<Longrightarrow> reachable P (sendChatMessage_resume P outcome s)"
| pdf_click: "reachable P s \<Longrightarrow> Card c k \<in> set (chatBox s) \<Longrightarrow> reachable P (pdf_button_click L c s)"

section \<open>Notions used in the statements\<close>

text \<open>The transient message is the bubble with the id of the typing indicator.\<close>

definition is_typing :: "node \<Rightarrow> bool" where
  "is_typing n = (node_id n = Some ''typing-indicator-wrapper'')"

definition typing_count :: "node list \<Rightarrow> nat" where
  "typing_count ns = length (filter is_typing ns)"

fun is_user_message :: "node \<Rightarrow> bool" where
  "is_user_message (Message who wid html k) = (who = User)"
| "is_user_message (Card c k) = False"

text \<open>No markup has put an element with the id of the typing indicator into the log.\<close>

definition none_inside :: "node list \<Rightarrow> bool" where
  "none_inside ns = list_all (\<lambda>n. indicator_inside n = 0) ns"

text \<open>A tidy log: at most one typing indicator, and no element with its id inside a node.\<close>

definition tidy :: "node list \<Rightarrow> bool" where
  "tidy ns = (typing_count ns \<le> 1 \<and> none_inside ns)"

text \<open>A browser in whose run no markup carries the id of the typing indicator.\<close>

definition no_injected_ids :: "platform \<Rightarrow> bool" where
  "no_injected_ids P = ((\<forall>h. indicator_ids P h = 0) \<and> (\<forall>m. meta_indicator_ids P m = 0))"

text \<open>Line 46: the page with a session, started when there was none.\<close>

definition session_started :: "platform \<Rightarrow> nat \<Rightarrow> page \<Rightarrow> page" where
  "session_started P now s =
     (if sessionId s = None \<or> sessionId s = Some [] then startNewSession P now s else s)"

text \<open>The log a send starts from: line 49 removes the typing indicator before the bubble
  of the user is appended.\<close>

definition log_before_send :: "platform \<Rightarrow> nat \<Rightarrow> page \<Rightarrow> node list" where
  "log_before_send P now s = remove_first_indicator (chatBox (session_started P now s))"

definition typing_bubble :: node where
  "typing_bubble = Message Bot (Some ''typing-indicator-wrapper'') ''Typing...'' 0"

definition bubble :: "platform \<Rightarrow> sender \<Rightarrow> string \<Rightarrow> node" where
  "bubble P who txt = Message who None (display_html txt) (markup_ids P (display_html txt))"

definition user_bubble :: "platform \<Rightarrow> string \<Rightarrow> node" where
  "user_bubble P txt = bubble P User txt"

definition apology_bubble :: node where
  "apology_bubble = Message Bot None apology 0"

text \<open>The page at the \<open>await\<close> of a send.\<close>

definition awaiting :: "platform \<Rightarrow> nat \<Rightarrow> page \<Rightarrow> page" where
  "awaiting P now s =
     (session_started P now s)
       \<lparr>chatBox := log_before_send P now s @ [user_bubble P (trim (userInput s)), typing_bubble],
        categoryBtnContainer :=
          map_option (\<lambda>d. ''none'') (categoryBtnContainer (session_started P now s)),
        userInput := [],
        requests := requests (session_started P now s) @
           [\<lparr>message = trim (userInput s), session_id = sessionId (session_started P now s)\<rparr>]\<rparr>"

text \<open>
  The ways a call can end behind the \<open>await\<close>: with a table card, with the bubble of a
  reply, with nothing, or by an exception, thrown before line 64 has removed the typing
  indicator or after it.  Each way appends its nodes, logs its errors and has called
  \<open>removeTypingIndicator\<close> a number of times.
\<close>

datatype ending =
    Table_shown table_card
  | Reply_shown string
  | Nothing_shown
  | Failed_early exn
  | Failed_late exn

fun ending_nodes :: "platform \<Rightarrow> ending \<Rightarrow> node list" where
  "ending_nodes P (Table_shown c) = [Card c (card_ids P (card_meta c) (table_html c))]"
| "ending_nodes P (Reply_shown r) = [bubble P Bot r]"
| "ending_nodes P Nothing_shown = []"
| "ending_nodes P (Failed_early e) = [apology_bubble]"
| "ending_nodes P (Failed_late e) = [apology_bubble]"

fun ending_errors :: "ending \<Rightarrow> (string \<times> exn) list" where
  "ending_errors (Failed_early e) = [(''Chat Error:'', e)]"
| "ending_errors (Failed_late e) = [(''Chat Error:'', e)]"
| "ending_errors _ = []"

fun after_removals :: "ending \<Rightarrow> node list \<Rightarrow> node list" where
  "after_removals (Table_shown c) ns = remove_first_indicator ns"
| "after_removals (Reply_shown r) ns = remove_first_indicator (remove_first_indicator ns)"
| "after_removals Nothing_shown ns = remove_first_indicator ns"
| "after_removals (Failed_early e) ns = remove_first_indicator (remove_first_indicator ns)"
| "after_removals (Failed_late e) ns =
     remove_first_indicator (remove_first_indicator (remove_first_indicator ns))"

text \<open>The payloads of the data model: a table is a non-empty array of rows of strings,
  a meta object has strings for members.\<close>

fun is_JStr :: "json \<Rightarrow> bool" where
  "is_JStr (JStr t) = True"
| "is_JStr _ = False"

definition is_string_row :: "json \<Rightarrow> bool" where
  "is_string_row r = (case r of JArr cells \<Rightarrow> list_all is_JStr cells | _ \<Rightarrow> False)"

definition is_table_payload :: "json \<Rightarrow> bool" where
  "is_table_payload t =
     (case t of JArr rows \<Rightarrow> rows \<noteq> [] \<and> list_all is_string_row rows | _ \<Rightarrow> False)"








text \<open>
  The same PDF library with no call that throws.  What the export saves on it is the
  document the export sets out to make.
\<close>

definition never_throwing :: "pdf_lib \<Rightarrow> pdf_lib" where
  "never_throwing L = L\<lparr>throws := (\<lambda>d c. False)\<rparr>"

text \<open>No call of a run threw: \<open>cs\<close> are the calls made on the document \<open>d\<close>, in order.\<close>

fun clean_from :: "pdf_lib \<Rightarrow> pdf_op list \<Rightarrow> pdf_op list \<Rightarrow> bool" where
  "clean_from L d [] = True"
| "clean_from L d (c # cs) = (\<not> throws L d c \<and> clean_from L (d @ [c]) cs)"

text \<open>The values the platform's parser produces: the keys of every object are distinct.\<close>

fun json_wf :: "json \<Rightarrow> bool" where
  "json_wf (JArr xs) = list_all json_wf xs"
| "json_wf (JObj kvs) = (distinct (map fst kvs) \<and> list_all (\<lambda>kv. json_wf (snd kv)) kvs)"
| "json_wf _ = True"

text \<open>What can follow a value: the end of the text, a comma or a closing bracket.\<close>

definition delimited :: "string \<Rightarrow> bool" where
  "delimited rest =
     (rest = [] \<or> hd rest = CHR '','' \<or> hd rest = CHR '']'' \<or> hd rest = CHR ''}'')"

text \<open>The first character of a serialised value.\<close>

definition value_start :: "char \<Rightarrow> bool" where
  "value_start c =
     (c = CHR 0x22 \<or> c = CHR ''['' \<or> c = CHR ''{'' \<or> c = CHR ''n'' \<or> c = CHR ''t'' \<or>
      c = CHR ''f'' \<or> c = CHR ''-'' \<or> is_digit c)"

section \<open>Example values\<close>

text \<open>
  A browser in which no markup carries the id of the typing indicator, and one that
  finds an element with that id in the markup \<^verbatim>\<open><p id=typing-indicator-wrapper>\<close>.
\<close>

definition plain_browser :: platform where
  "plain_browser =
     \<lparr>string_bound = (\<lambda>t. 0), indicator_ids = (\<lambda>h. 0), meta_indicator_ids = (\<lambda>m. 0)\<rparr>"

definition browser :: platform where
  "browser =
     \<lparr>string_bound = (\<lambda>t. 0),
      indicator_ids = (\<lambda>h. if h = ''<p id=typing-indicator-wrapper>'' then 1 else 0),
      meta_indicator_ids = (\<lambda>m. 0)\<rparr>"

text \<open>A page in the middle of a conversation, with a send under way and blank input.\<close>

definition busy_page :: page where
  "busy_page =
     \<lparr>chatBox = [Message Bot None greeting 0, Message User None ''hi'' 0, typing_bubble],
      sessionId = Some ''session_1'',
      categoryBtnContainer = Some ''none'',
      userInput = ''   '',
      console = [],
      alerts = [],
      requests = [\<lparr>message = ''hi'', session_id = Some ''session_1''\<rparr>],
      downloads = []\<rparr>"

text \<open>A page with a session and a message typed in.\<close>

definition hello_page :: page where
  "hello_page =
     \<lparr>chatBox = [Message Bot None greeting 0],
      sessionId = Some ''session_5'',
      categoryBtnContainer = Some ''flex'',
      userInput = '' Hello '',
      console = [],
      alerts = [],
      requests = [],
      downloads = []\<rparr>"

text \<open>The same page with markup typed in.\<close>

definition markup_page :: page where
  "markup_page = hello_page\<lparr>userInput := ''<p id=typing-indicator-wrapper>''\<rparr>"

text \<open>The table reply of the wire contract, here with a reply beside the table.\<close>

definition wage_table :: json where
  "wage_table = JArr [JArr [JStr ''State'', JStr ''Rate''], JArr [JStr ''Delhi'', JStr ''500'']]"

definition delhi_meta :: json where
  "delhi_meta = JObj [(''state'', JStr ''Delhi''), (''pdf_url'', JStr ''http://x/doc.pdf'')]"


text \<open>A PDF library that never throws, and one that throws when the colour of the
  disclaimer is set.\<close>

definition example_lib :: pdf_lib where
  "example_lib = \<lparr>loaded = True, throws = (\<lambda>d c. False), finalY = (\<lambda>d. Some 57)\<rparr>"

definition failing_lib :: pdf_lib where
  "failing_lib =
     \<lparr>loaded = True, throws = (\<lambda>d c. c = SetTextColor 180 0 0), finalY = (\<lambda>d. Some 57)\<rparr>"

definition delhi_document :: "pdf_op list" where
  "delhi_document =
     title_ops @
       [SetFontSize 11,
        DrawText ''State: Delhi'' 14 30 None,
        DrawText ''Effective From: undefined'' 14 36 None,
        SetTextColor 0 0 255,
        DrawText ''Govt Notification PDF: http://x/doc.pdf'' 14 42 None,
        SetTextColor 0 0 0,
        AutoTable (Some (JArr [JStr ''State'', JStr ''Rate'']))
          (JArr [JArr [JStr ''Delhi'', JStr ''500'']]) 52,
        SetFontSize 10, SetTextColor 180 0 0,
        DrawText disclaimer 14 69 (Some 180)]"

section \<open>Properties of the strings and of the chat box\<close>

lemma strip_img_no_tag: "\<not> has_img_tag s \<Longrightarrow> strip_img s = s"
  by (induction s) auto

lemma display_html_greeting: "display_html greeting = greeting"
  by (simp add: display_html_def greeting_def trim_def img_match_def is_js_space_def)

lemma display_html_apology: "display_html apology = apology"
  by (simp add: display_html_def apology_def trim_def img_match_def is_js_space_def)

lemma display_html_typing: "display_html ''Typing...'' = ''Typing...''"
  by (simp add: display_html_def trim_def img_match_def is_js_space_def)

lemma markup_ids_fixed_texts:
  "markup_ids P greeting = 0" "markup_ids P apology = 0" "markup_ids P ''Typing...'' = 0"
  by (simp_all add: markup_ids_def greeting_def apology_def)

lemma typing_count_simps [simp]:
  "typing_count [] = 0"
  "typing_count (n # ns) = (if is_typing n then Suc (typing_count ns) else typing_count ns)"
  "typing_count (xs @ ys) = typing_count xs + typing_count ys"
  by (simp_all add: typing_count_def)

lemma none_inside_simps [simp]:
  "none_inside []"
  "none_inside (n # ns) = (indicator_inside n = 0 \<and> none_inside ns)"
  "none_inside (xs @ ys) = (none_inside xs \<and> none_inside ys)"
  by (simp_all add: none_inside_def)

lemma remove_first_indicator_clean:
  "typing_count ns = 0 \<Longrightarrow> none_inside ns \<Longrightarrow> remove_first_indicator ns = ns"
  by (induction ns) (auto simp: is_typing_def split: if_splits)

lemma remove_first_indicator_append:
  "typing_count ns = 0 \<Longrightarrow> none_inside ns \<Longrightarrow>
   remove_first_indicator (ns @ ms) = ns @ remove_first_indicator ms"
  by (induction ns) (auto simp: is_typing_def split: if_splits)

lemma node_id_one_less [simp]: "node_id (one_less_inside n) = node_id n"
  by (cases n) simp_all

lemma is_typing_one_less [simp]: "is_typing (one_less_inside n) = is_typing n"
  by (simp add: is_typing_def)

lemma typing_count_remove_le:
  "typing_count (remove_first_indicator ns) \<le> typing_count ns"
  by (induction ns) (auto simp: is_typing_def)

lemma typing_count_remove:
  "none_inside ns \<Longrightarrow> typing_count (remove_first_indicator ns) = typing_count ns - 1"
  by (induction ns) (auto simp: is_typing_def)

lemma none_inside_remove:
  "none_inside ns \<Longrightarrow> none_inside (remove_first_indicator ns)"
  by (induction ns) auto

lemma tidy_remove: "tidy ns \<Longrightarrow> typing_count (remove_first_indicator ns) = 0 \<and> none_inside (remove_first_indicator ns)"
  by (simp add: tidy_def typing_count_remove none_inside_remove)

lemma digit_cases:
  "d < 10 \<Longrightarrow>
   d = 0 \<or> d = 1 \<or> d = 2 \<or> d = 3 \<or> d = 4 \<or> d = 5 \<or> d = 6 \<or> d = 7 \<or> d = 8 \<or> d = (9::nat)"
  by arith

lemma digit_val_digit_char: "d < 10 \<Longrightarrow> digit_val (digit_char d) = d"
  by (drule digit_cases) (auto simp: digit_val_def digit_char_def)

lemma is_digit_digit_char: "d < 10 \<Longrightarrow> is_digit (digit_char d)"
  by (drule digit_cases) (auto simp: is_digit_def digit_char_def)

lemma read_nat_snoc: "read_nat (ds @ [c]) = 10 * read_nat ds + digit_val c"
  by (simp add: read_nat_def)

lemma read_nat_show_nat: "read_nat (show_nat n) = n"
proof (induction n rule: show_nat.induct)
  case (1 n)
  show ?case
  proof (cases "n < 10")
    case True
    then show ?thesis
      by (simp add: show_nat.simps [of n] read_nat_def digit_val_digit_char)
  next
    case False
    with 1 show ?thesis
      by (simp add: show_nat.simps [of n] read_nat_snoc digit_val_digit_char)
  qed
qed

lemma show_nat_inject: "show_nat a = show_nat b \<Longrightarrow> a = b"
  by (metis read_nat_show_nat)

lemma chatBox_removeTypingIndicator:
  "removeTypingIndicator s = s\<lparr>chatBox := remove_first_indicator (chatBox s)\<rparr>"
  by (simp add: removeTypingIndicator_def)

lemma addMessage_eq:
  "addMessageToChatbox P txt who None s =
     s\<lparr>chatBox := remove_first_indicator (chatBox s) @ [bubble P who txt]\<rparr>"
  by (simp add: addMessageToChatbox_def removeTypingIndicator_def bubble_def Let_def)

lemma bubble_apology: "bubble P Bot apology = apology_bubble"
  by (simp add: bubble_def apology_bubble_def display_html_apology markup_ids_fixed_texts)

lemma startNewSession_eq:
  "startNewSession P now s =
     s\<lparr>chatBox := [Message Bot None greeting 0],
       sessionId := Some (''session_'' @ show_nat now),
       categoryBtnContainer := map_option (\<lambda>d. ''flex'') (categoryBtnContainer s)\<rparr>"
  by (cases "categoryBtnContainer s")
     (simp_all add: startNewSession_def addMessage_eq bubble_def
        display_html_greeting markup_ids_fixed_texts Let_def)

section \<open>Properties of a send\<close>

lemma sendChatMessage_begin_eq:
  assumes "trim (userInput s) \<noteq> []"
  shows "sendChatMessage_begin P now s = Some (awaiting P now s)"
  using assms
  by (cases "categoryBtnContainer (session_started P now s)")
     (simp_all add: sendChatMessage_begin_def session_started_def [symmetric]
        log_before_send_def addMessage_eq addMessageToChatbox_def Let_def awaiting_def
        user_bubble_def bubble_def typing_bubble_def display_html_typing
        markup_ids_fixed_texts removeTypingIndicator_def)

lemma sendChatMessage_awaiting:
  "trim (userInput s) \<noteq> [] \<Longrightarrow>
   sendChatMessage P now outcome s = sendChatMessage_resume P outcome (awaiting P now s)"
  by (simp add: sendChatMessage_def sendChatMessage_begin_eq)

lemma console_session_started: "console (session_started P now s) = console s"
  by (simp add: session_started_def startNewSession_eq)

lemma console_awaiting: "console (awaiting P now s) = console s"
  by (simp add: awaiting_def console_session_started)

lemma chatBox_awaiting:
  "chatBox (awaiting P now s) =
     log_before_send P now s @ [user_bubble P (trim (userInput s)), typing_bubble]"
  by (simp add: awaiting_def)

lemma addTableToChat_Some:
  "addTableToChat P t m s = Some s' \<Longrightarrow>
   \<exists>mb html. render_meta m = Some mb \<and> render_table (string_bound P) t = Some html \<and>
     s' = s\<lparr>chatBox := chatBox s @
          [Card \<lparr>card_meta = mb, table_html = html, dataset_tabledata = JSON_stringify t,
                 dataset_meta = JSON_stringify m\<rparr> (card_ids P mb html)]\<rparr>"
  by (auto simp: addTableToChat_def Option.bind_eq_Some_conv)

lemma catch_clause:
  "addMessageToChatbox P apology Bot None (removeTypingIndicator (s\<lparr>console := c\<rparr>)) =
     s\<lparr>chatBox := remove_first_indicator (remove_first_indicator (chatBox s)) @ [apology_bubble],
       console := c\<rparr>"
  by (simp add: addMessage_eq chatBox_removeTypingIndicator bubble_apology)

text \<open>How a call ends behind the \<open>await\<close>, on any page.\<close>

lemma resume_ending:
  "\<exists>en. sendChatMessage_resume P outcome s =
           s\<lparr>chatBox := after_removals en (chatBox s) @ ending_nodes P en,
             console := console s @ ending_errors en\<rparr>"
proof -
  let ?goal = ?thesis
  let ?R = remove_first_indicator
  let ?s1 = "s\<lparr>chatBox := ?R (chatBox s)\<rparr>"
  have r: "removeTypingIndicator s = ?s1"
    by (rule chatBox_removeTypingIndicator)
  have ended: "\<And>en. sendChatMessage_resume P outcome s =
           s\<lparr>chatBox := after_removals en (chatBox s) @ ending_nodes P en,
             console := console s @ ending_errors en\<rparr> \<Longrightarrow> ?goal"
    by blast
  have failed_early: "\<And>e. addMessageToChatbox P apology Bot None
        (removeTypingIndicator (s\<lparr>console := console s @ [(''Chat Error:'', e)]\<rparr>)) =
      s\<lparr>chatBox := after_removals (Failed_early e) (chatBox s) @ ending_nodes P (Failed_early e),
        console := console s @ ending_errors (Failed_early e)\<rparr>"
    by (simp add: catch_clause)
  have failed_late: "\<And>e. addMessageToChatbox P apology Bot None
        (removeTypingIndicator (?s1\<lparr>console := console ?s1 @ [(''Chat Error:'', e)]\<rparr>)) =
      s\<lparr>chatBox := after_removals (Failed_late e) (chatBox s) @ ending_nodes P (Failed_late e),
        console := console s @ ending_errors (Failed_late e)\<rparr>"
    by (simp add: catch_clause)
  have empty_turn: "?s1 = s\<lparr>chatBox := after_removals Nothing_shown (chatBox s)
          @ ending_nodes P Nothing_shown,
        console := console s @ ending_errors Nothing_shown\<rparr>"
    by simp
  have reply: "\<And>t. addMessageToChatbox P t Bot None ?s1 =
      s\<lparr>chatBox := after_removals (Reply_shown t) (chatBox s) @ ending_nodes P (Reply_shown t),
        console := console s @ ending_errors (Reply_shown t)\<rparr>"
    by (simp add: addMessage_eq)
  have table: "\<And>t m s2. addTableToChat P t m ?s1 = Some s2 \<Longrightarrow>
      \<exists>c. s2 = s\<lparr>chatBox := after_removals (Table_shown c) (chatBox s)
              @ ending_nodes P (Table_shown c),
        console := console s @ ending_errors (Table_shown c)\<rparr>"
  proof -
    fix t m s2
    assume "addTableToChat P t m ?s1 = Some s2"
    from addTableToChat_Some [OF this] obtain mb html where
      s2: "s2 = ?s1\<lparr>chatBox := chatBox ?s1 @
          [Card \<lparr>card_meta = mb, table_html = html, dataset_tabledata = JSON_stringify t,
                 dataset_meta = JSON_stringify m\<rparr> (card_ids P mb html)]\<rparr>"
      by blast
    let ?c = "\<lparr>card_meta = mb, table_html = html, dataset_tabledata = JSON_stringify t,
                 dataset_meta = JSON_stringify m\<rparr>"
    have "s2 = s\<lparr>chatBox := after_removals (Table_shown ?c) (chatBox s)
              @ ending_nodes P (Table_shown ?c),
        console := console s @ ending_errors (Table_shown ?c)\<rparr>"
      by (simp add: s2)
    then show "\<exists>c. s2 = s\<lparr>chatBox := after_removals (Table_shown c) (chatBox s)
              @ ending_nodes P (Table_shown c),
        console := console s @ ending_errors (Table_shown c)\<rparr>" ..
  qed
  show ?thesis
  proof (cases outcome)
    case Rejected
    then have "sendChatMessage_resume P outcome s =
        s\<lparr>chatBox := after_removals (Failed_early FetchError) (chatBox s)
              @ ending_nodes P (Failed_early FetchError),
          console := console s @ ending_errors (Failed_early FetchError)\<rparr>"
      by (simp only: sendChatMessage_resume_def try_block_def fetch_outcome.case prod.case
            option.case failed_early)
    then show ?thesis by (rule ended)
  next
    case (Responded ok body)
    show ?thesis
    proof (cases ok)
      case False
      then have "sendChatMessage_resume P outcome s =
          s\<lparr>chatBox := after_removals (Failed_early (Error ''API request failed'')) (chatBox s)
                @ ending_nodes P (Failed_early (Error ''API request failed'')),
            console := console s @ ending_errors (Failed_early (Error ''API request failed''))\<rparr>"
        using Responded
        by (simp only: sendChatMessage_resume_def try_block_def fetch_outcome.case prod.case
              option.case failed_early not_False_eq_True if_True)
      then show ?thesis by (rule ended)
    next
      case True
      note ok = this
      show ?thesis
      proof (cases body)
        case None
        then have "sendChatMessage_resume P outcome s =
            s\<lparr>chatBox := after_removals (Failed_early SyntaxError) (chatBox s)
                  @ ending_nodes P (Failed_early SyntaxError),
              console := console s @ ending_errors (Failed_early SyntaxError)\<rparr>"
          using Responded ok
          by (simp only: sendChatMessage_resume_def try_block_def fetch_outcome.case prod.case
                option.case failed_early not_True_eq_False if_False)
        then show ?thesis by (rule ended)
      next
        case (Some data)
        have tb: "try_block P outcome s =
            (if data = JNull then (?s1, Some TypeError)
             else case table_to_show (string_bound P) (js_get data ''table'') of
                None \<Rightarrow> (?s1, Some TypeError)
              | Some (Some t) \<Rightarrow>
                  (case addTableToChat P t (or_null (js_get data ''meta'')) ?s1 of
                     None \<Rightarrow> (?s1, Some TypeError)
                   | Some s2 \<Rightarrow> (s2, None))
              | Some None \<Rightarrow>
                  (case reply_to_show (js_get data ''reply'') of
                     None \<Rightarrow> (?s1, Some TypeError)
                   | Some None \<Rightarrow> (?s1, None)
                   | Some (Some t) \<Rightarrow> (addMessageToChatbox P t Bot None ?s1, None)))"
          using Responded ok Some
          by (simp only: try_block_def fetch_outcome.case option.case r Let_def
                not_True_eq_False if_False)
        have late: "try_block P outcome s = (?s1, Some TypeError) \<Longrightarrow> ?goal"
        proof -
          assume "try_block P outcome s = (?s1, Some TypeError)"
          then have "sendChatMessage_resume P outcome s =
              s\<lparr>chatBox := after_removals (Failed_late TypeError) (chatBox s)
                    @ ending_nodes P (Failed_late TypeError),
                console := console s @ ending_errors (Failed_late TypeError)\<rparr>"
            by (simp only: sendChatMessage_resume_def prod.case option.case failed_late)
          then show ?goal by (rule ended)
        qed
        have fin: "\<And>s2 en. try_block P outcome s = (s2, None) \<Longrightarrow>
            s2 = s\<lparr>chatBox := after_removals en (chatBox s) @ ending_nodes P en,
                   console := console s @ ending_errors en\<rparr> \<Longrightarrow> ?goal"
        proof -
          fix s2 en
          assume "try_block P outcome s = (s2, None)"
            and "s2 = s\<lparr>chatBox := after_removals en (chatBox s) @ ending_nodes P en,
                   console := console s @ ending_errors en\<rparr>"
          then have "sendChatMessage_resume P outcome s =
              s\<lparr>chatBox := after_removals en (chatBox s) @ ending_nodes P en,
                console := console s @ ending_errors en\<rparr>"
            by (simp only: sendChatMessage_resume_def prod.case option.case)
          then show ?goal by (rule ended)
        qed
        show ?thesis
        proof (cases "data = JNull")
          case True
          then show ?thesis using tb late by simp
        next
          case False
          note nn = this
          show ?thesis
          proof (cases "table_to_show (string_bound P) (js_get data ''table'')")
            case None
            then show ?thesis using tb nn late by simp
          next
            case (Some tt)
            note tts = this
            show ?thesis
            proof (cases tt)
              case (Some t)
              show ?thesis
              proof (cases "addTableToChat P t (or_null (js_get data ''meta'')) ?s1")
                case None
                then show ?thesis using tb nn tts Some late by simp
              next
                case (Some s2)
                from table [OF this] obtain c where
                  "s2 = s\<lparr>chatBox := after_removals (Table_shown c) (chatBox s)
                          @ ending_nodes P (Table_shown c),
                      console := console s @ ending_errors (Table_shown c)\<rparr>" by blast
                moreover have "try_block P outcome s = (s2, None)"
                  using tb nn tts \<open>tt = Some t\<close> Some by simp
                ultimately show ?thesis by (rule fin [rotated])
              qed
            next
              case None
              note ttn = this
              show ?thesis
              proof (cases "reply_to_show (js_get data ''reply'')")
                case None
                then show ?thesis using tb nn tts ttn late by simp
              next
                case (Some rr)
                show ?thesis
                proof (cases rr)
                  case None
                  have "try_block P outcome s = (?s1, None)"
                    using tb nn tts ttn Some None by simp
                  then show ?thesis using empty_turn by (rule fin [where en = Nothing_shown])
                next
                  case (Some t)
                  have "try_block P outcome s = (addMessageToChatbox P t Bot None ?s1, None)"
                    using tb nn tts ttn \<open>reply_to_show (js_get data ''reply'') = Some rr\<close> Some
                    by simp
                  then show ?thesis using reply by (rule fin [where en = "Reply_shown t"])
                qed
              qed
            qed
          qed
        qed
      qed
    qed
  qed
qed

lemma sendChatMessage_ending:
  assumes "trim (userInput s) \<noteq> []"
  shows "\<exists>en. sendChatMessage P now outcome s =
     (awaiting P now s)
       \<lparr>chatBox := after_removals en (chatBox (awaiting P now s)) @ ending_nodes P en,
        console := console s @ ending_errors en\<rparr>"
  using resume_ending [of P outcome "awaiting P now s"]
  by (simp add: sendChatMessage_awaiting [OF assms] console_awaiting)

lemma ending_nodes_facts:
  "length (ending_nodes P en) \<le> 1"
  "typing_count (ending_nodes P en) = 0"
  "list_all (\<lambda>n. \<not> is_user_message n) (ending_nodes P en)"
  by (cases en; simp add: is_typing_def apology_bubble_def bubble_def)+

lemma sendChatMessage_chatBox:
  assumes "trim (userInput s) \<noteq> []"
  shows "\<exists>en. chatBox (sendChatMessage P now outcome s) =
              after_removals en (chatBox (awaiting P now s)) @ ending_nodes P en"
proof -
  from sendChatMessage_ending [OF assms, of P now outcome] obtain en where
    eq: "sendChatMessage P now outcome s =
     (awaiting P now s)
       \<lparr>chatBox := after_removals en (chatBox (awaiting P now s)) @ ending_nodes P en,
        console := console s @ ending_errors en\<rparr>" ..
  have "chatBox (sendChatMessage P now outcome s) =
          after_removals en (chatBox (awaiting P now s)) @ ending_nodes P en"
    by (subst eq) simp
  then show ?thesis ..
qed

text \<open>The three endings the claims name.\<close>

lemma send_unparsable:
  assumes "trim (userInput s) \<noteq> []"
  shows "sendChatMessage P now (Responded True None) s =
         (awaiting P now s)
           \<lparr>chatBox := remove_first_indicator (remove_first_indicator (chatBox (awaiting P now s)))
                        @ [apology_bubble],
            console := console s @ [(''Chat Error:'', SyntaxError)]\<rparr>"
  by (simp add: sendChatMessage_awaiting [OF assms] sendChatMessage_resume_def
        try_block_def console_awaiting catch_clause)

lemma send_empty_turn:
  assumes "trim (userInput s) \<noteq> []"
    and "data \<noteq> JNull"
    and "table_to_show (string_bound P) (js_get data ''table'') = Some None"
    and "reply_to_show (js_get data ''reply'') = Some None"
  shows "sendChatMessage P now (Responded True (Some data)) s =
         (awaiting P now s)\<lparr>chatBox := remove_first_indicator (chatBox (awaiting P now s))\<rparr>"
  using assms(2-4)
  by (simp add: sendChatMessage_awaiting [OF assms(1)] sendChatMessage_resume_def
        try_block_def chatBox_removeTypingIndicator)


text \<open>From a tidy log, and with no element of the indicator's id in the user's bubble,
  every removal behind the \<open>await\<close> leaves the log with the user's bubble last.\<close>

lemma tidy_log_before_send:
  assumes "tidy (chatBox s)"
  shows "typing_count (log_before_send P now s) = 0 \<and> none_inside (log_before_send P now s)"
proof -
  have "tidy (chatBox (session_started P now s))"
    using assms by (simp add: session_started_def startNewSession_eq tidy_def is_typing_def)
  then show ?thesis
    unfolding log_before_send_def by (rule tidy_remove)
qed

lemma removals_awaiting:
  assumes "tidy (chatBox s)" and "markup_ids P (display_html (trim (userInput s))) = 0"
  shows "remove_first_indicator (chatBox (awaiting P now s)) =
           log_before_send P now s @ [user_bubble P (trim (userInput s))]"
    and "remove_first_indicator (log_before_send P now s @ [user_bubble P (trim (userInput s))]) =
           log_before_send P now s @ [user_bubble P (trim (userInput s))]"
proof -
  note base = tidy_log_before_send [OF assms(1), of P now]
  have u: "\<not> is_typing (user_bubble P (trim (userInput s)))"
    "indicator_inside (user_bubble P (trim (userInput s))) = 0"
    using assms(2) by (simp_all add: user_bubble_def bubble_def is_typing_def)
  show "remove_first_indicator (chatBox (awaiting P now s)) =
           log_before_send P now s @ [user_bubble P (trim (userInput s))]"
    using base u
    by (simp add: chatBox_awaiting remove_first_indicator_append typing_bubble_def is_typing_def)
  show "remove_first_indicator (log_before_send P now s @ [user_bubble P (trim (userInput s))]) =
           log_before_send P now s @ [user_bubble P (trim (userInput s))]"
    using base u by (intro remove_first_indicator_clean) simp_all
qed

lemma after_removals_awaiting:
  assumes "tidy (chatBox s)" and "markup_ids P (display_html (trim (userInput s))) = 0"
  shows "after_removals en (chatBox (awaiting P now s)) =
           log_before_send P now s @ [user_bubble P (trim (userInput s))]"
  by (cases en) (simp_all add: removals_awaiting [OF assms])










section \<open>The pages the script reaches keep a tidy log\<close>

lemma chatBox_pdf_button_click: "chatBox (pdf_button_click L c s) = chatBox s"
  by (simp add: pdf_button_click_def downloadTableAsPDF_def split: option.splits sum.splits prod.splits)

lemma markup_ids_none: "no_injected_ids P \<Longrightarrow> markup_ids P h = 0"
  by (simp add: no_injected_ids_def markup_ids_def)

lemma card_ids_none: "no_injected_ids P \<Longrightarrow> card_ids P mb h = 0"
  by (cases mb) (simp_all add: no_injected_ids_def markup_ids_def card_ids_def)

lemma ending_nodes_none_inside:
  "no_injected_ids P \<Longrightarrow> none_inside (ending_nodes P en)"
  by (cases en) (simp_all add: markup_ids_none card_ids_none bubble_def apology_bubble_def)

lemma tidy_after_removals:
  assumes "tidy ns"
  shows "typing_count (after_removals en ns) \<le> 1 \<and> none_inside (after_removals en ns)"
proof -
  have step: "\<And>ms. typing_count ms \<le> 1 \<and> none_inside ms \<Longrightarrow>
      typing_count (remove_first_indicator ms) \<le> 1 \<and> none_inside (remove_first_indicator ms)"
    by (simp add: typing_count_remove none_inside_remove)
  have base: "typing_count ns \<le> 1 \<and> none_inside ns"
    using assms by (simp add: tidy_def)
  show ?thesis
    by (cases en) (simp_all only: after_removals.simps step base)
qed

lemma reachable_tidy:
  assumes "no_injected_ids P"
  shows "reachable P s \<Longrightarrow> tidy (chatBox s)"
proof (induction rule: reachable.induct)
  case (loaded_page now s0)
  then show ?case by (simp add: startNewSession_eq is_typing_def tidy_def)
next
  case (refresh s now)
  then show ?case by (simp add: startNewSession_eq is_typing_def tidy_def)
next
  case (edit s t)
  then show ?case by simp
next
  case (send_begin s now s1)
  from send_begin.hyps(2) have i: "trim (userInput s) \<noteq> []"
    by (auto simp: sendChatMessage_begin_def Let_def split: if_splits)
  have "typing_count (log_before_send P now s) = 0 \<and> none_inside (log_before_send P now s)"
    using send_begin.IH by (rule tidy_log_before_send)
  then show ?case
    using send_begin.hyps(2) sendChatMessage_begin_eq [OF i, of P now] assms
    by (auto simp: is_typing_def user_bubble_def bubble_def typing_bubble_def tidy_def
          chatBox_awaiting markup_ids_none)
next
  case (send_resume s outcome)
  from resume_ending [of P outcome s] obtain en where
    eq: "sendChatMessage_resume P outcome s =
           s\<lparr>chatBox := after_removals en (chatBox s) @ ending_nodes P en,
             console := console s @ ending_errors en\<rparr>" ..
  have "chatBox (sendChatMessage_resume P outcome s) =
          after_removals en (chatBox s) @ ending_nodes P en"
    by (subst eq) simp
  then show ?case
    using tidy_after_removals [OF send_resume.IH, of en] ending_nodes_facts(2) [of P en]
      ending_nodes_none_inside [OF assms, of en]
    by (simp add: tidy_def)
next
  case (pdf_click s c k L)
  then show ?case by (simp add: chatBox_pdf_button_click)
qed

section \<open>Properties of the export\<close>

lemma clean_from_append:
  "clean_from L d (xs @ ys) = (clean_from L d xs \<and> clean_from L (d @ xs) ys)"
  by (induction xs arbitrary: d) auto

lemma bindE_Inr: "bindE r f = Inr y \<Longrightarrow> \<exists>x. r = Inr x \<and> f x = Inr y"
  by (cases r) (simp_all add: bindE_def)

lemma doc_call_Inr:
  "doc_call L c d = Inr d' \<Longrightarrow> d' = d @ [c] \<and> \<not> throws L d c"
  by (auto simp: doc_call_def split: if_splits)

lemma doc_calls_Inr:
  "doc_calls L cs d = Inr d' \<Longrightarrow> d' = d @ cs \<and> clean_from L d cs"
proof (induction cs arbitrary: d)
  case Nil
  then show ?case by simp
next
  case (Cons c cs)
  from Cons.prems obtain d1 where d1: "doc_call L c d = Inr d1" "doc_calls L cs d1 = Inr d'"
    by (auto dest: bindE_Inr)
  from doc_call_Inr [OF d1(1)] Cons.IH [OF d1(2)] show ?case by simp
qed

lemma url_line_Inr:
  assumes "url_line L u d = Inr (d', y)"
  shows "\<exists>cs. d' = d @ cs \<and> clean_from L d cs"
proof -
  from assms obtain d4 url d5 d6 where
    "doc_call L (SetTextColor 0 0 255) d = Inr d4"
    "doc_call L (DrawText (''Govt Notification PDF: '' @ url) 14 42 None) d4 = Inr d5"
    "doc_call L (SetTextColor 0 0 0) d5 = Inr d6" "d' = d6"
    unfolding url_line_def by (auto dest!: bindE_Inr)
  then have "d' = d @ [SetTextColor 0 0 255, DrawText (''Govt Notification PDF: '' @ url) 14 42 None,
        SetTextColor 0 0 0]
      \<and> clean_from L d [SetTextColor 0 0 255, DrawText (''Govt Notification PDF: '' @ url) 14 42 None,
        SetTextColor 0 0 0]"
    by (auto dest!: doc_call_Inr)
  then show ?thesis by blast
qed

lemma meta_block_Inr:
  assumes "meta_block L meta d = Inr (d', y)"
  shows "\<exists>cs. d' = d @ cs \<and> clean_from L d cs"
proof (cases "truthy meta")
  case False
  then have "d' = d" using assms by (simp add: meta_block_def)
  then have "d' = d @ [] \<and> clean_from L d []" by simp
  then show ?thesis by blast
next
  case True
  from assms True obtain d1 st d2 eff d3 where c:
    "doc_call L (SetFontSize 11) d = Inr d1"
    "doc_call L (DrawText (''State: '' @ st) 14 30 None) d1 = Inr d2"
    "doc_call L (DrawText (''Effective From: '' @ eff) 14 36 None) d2 = Inr d3"
    and rest: "(case js_get meta ''pdf_url'' of
           None \<Rightarrow> Inr (d3, 42)
         | Some u \<Rightarrow> if truthy u then url_line L u d3 else Inr (d3, 42)) = Inr (d', y)"
    unfolding meta_block_def by (auto dest!: bindE_Inr)
  let ?cs = "[SetFontSize 11, DrawText (''State: '' @ st) 14 30 None,
              DrawText (''Effective From: '' @ eff) 14 36 None]"
  have d3: "d3 = d @ ?cs \<and> clean_from L d ?cs"
    using c by (auto dest!: doc_call_Inr)
  from rest have "\<exists>cs. d' = d3 @ cs \<and> clean_from L d3 cs"
  proof (cases "js_get meta ''pdf_url''")
    case None
    with rest have "d' = d3 @ [] \<and> clean_from L d3 []" by simp
    then show ?thesis by blast
  next
    case (Some u)
    show ?thesis
    proof (cases "truthy u")
      case True
      with rest Some show ?thesis by (auto dest: url_line_Inr)
    next
      case False
      with rest Some have "d' = d3 @ [] \<and> clean_from L d3 []" by simp
      then show ?thesis by blast
    qed
  qed
  then obtain cs where "d' = d3 @ cs" "clean_from L d3 cs" by blast
  with d3 have "d' = d @ (?cs @ cs) \<and> clean_from L d (?cs @ cs)"
    by (simp add: clean_from_append)
  then show ?thesis by blast
qed

lemma bindE_InrE:
  assumes "bindE r f = Inr y"
  obtains x where "r = Inr x" and "f x = Inr y"
  using assms by (cases r) (simp_all add: bindE_def)

lemma export_pdf_Inr:
  assumes "export_pdf L tableData meta = Inr (name, doc)"
  shows "loaded L \<and> clean_from L [] (doc @ [Save name]) \<and> pdf_filename meta = Some name"
proof -
  let ?ds = "\<lambda>y. [SetFontSize 10, SetTextColor 180 0 0, DrawText disclaimer 14 (y + 12) (Some 180)]"
  from assms [unfolded export_pdf_def] obtain doc1 where
    1: "(if loaded L then doc_calls L title_ops [] else Inl TypeError) = Inr doc1"
    and r1: "bindE (meta_block L meta doc1) (\<lambda>(doc2, yPos).
     bindE (table_args tableData) (\<lambda>(head, body).
     bindE (doc_call L (AutoTable head body yPos) doc2) (\<lambda>doc3.
     bindE (or_type_error (finalY L doc3)) (\<lambda>y.
     bindE (doc_calls L (?ds y) doc3) (\<lambda>doc4.
     bindE (or_type_error (pdf_filename meta)) (\<lambda>name.
     bindE (doc_call L (Save name) doc4) (\<lambda>doc5.
     Inr (name, doc4)))))))) = Inr (name, doc)"
    by (rule bindE_InrE)
  from 1 have l: "loaded L" and d1: "doc_calls L title_ops [] = Inr doc1"
    by (simp_all split: if_splits)
  from r1 obtain p2 where 2: "meta_block L meta doc1 = Inr p2"
    and r2: "(case p2 of (doc2, yPos) \<Rightarrow>
     bindE (table_args tableData) (\<lambda>(head, body).
     bindE (doc_call L (AutoTable head body yPos) doc2) (\<lambda>doc3.
     bindE (or_type_error (finalY L doc3)) (\<lambda>y.
     bindE (doc_calls L (?ds y) doc3) (\<lambda>doc4.
     bindE (or_type_error (pdf_filename meta)) (\<lambda>name.
     bindE (doc_call L (Save name) doc4) (\<lambda>doc5.
     Inr (name, doc4)))))))) = Inr (name, doc)"
    by (rule bindE_InrE)
  obtain doc2 yPos where p2: "p2 = (doc2, yPos)" by (cases p2)
  from r2 [unfolded p2 prod.case] obtain p3 where
    r3: "(case p3 of (head, body) \<Rightarrow>
     bindE (doc_call L (AutoTable head body yPos) doc2) (\<lambda>doc3.
     bindE (or_type_error (finalY L doc3)) (\<lambda>y.
     bindE (doc_calls L (?ds y) doc3) (\<lambda>doc4.
     bindE (or_type_error (pdf_filename meta)) (\<lambda>name.
     bindE (doc_call L (Save name) doc4) (\<lambda>doc5.
     Inr (name, doc4))))))) = Inr (name, doc)"
    by (rule bindE_InrE)
  obtain head body where p3: "p3 = (head, body)" by (cases p3)
  from r3 [unfolded p3 prod.case] obtain doc3 where
    3: "doc_call L (AutoTable head body yPos) doc2 = Inr doc3"
    and r4: "bindE (or_type_error (finalY L doc3)) (\<lambda>y.
     bindE (doc_calls L (?ds y) doc3) (\<lambda>doc4.
     bindE (or_type_error (pdf_filename meta)) (\<lambda>name.
     bindE (doc_call L (Save name) doc4) (\<lambda>doc5.
     Inr (name, doc4))))) = Inr (name, doc)"
    by (rule bindE_InrE)
  from r4 obtain y where
    r5: "bindE (doc_calls L (?ds y) doc3) (\<lambda>doc4.
     bindE (or_type_error (pdf_filename meta)) (\<lambda>name.
     bindE (doc_call L (Save name) doc4) (\<lambda>doc5.
     Inr (name, doc4)))) = Inr (name, doc)"
    by (rule bindE_InrE)
  from r5 obtain doc4 where
    4: "doc_calls L (?ds y) doc3 = Inr doc4"
    and r6: "bindE (or_type_error (pdf_filename meta)) (\<lambda>name.
     bindE (doc_call L (Save name) doc4) (\<lambda>doc5.
     Inr (name, doc4))) = Inr (name, doc)"
    by (rule bindE_InrE)
  from r6 obtain nm where
    5: "or_type_error (pdf_filename meta) = Inr nm"
    and r7: "bindE (doc_call L (Save nm) doc4) (\<lambda>doc5. Inr (nm, doc4)) = Inr (name, doc)"
    by (rule bindE_InrE)
  from r7 obtain doc5 where
    6: "doc_call L (Save nm) doc4 = Inr doc5" and 7: "Inr (nm, doc4) = (Inr (name, doc) :: exn + string \<times> pdf_op list)"
    by (rule bindE_InrE)
  from 7 have eq: "nm = name" "doc4 = doc" by simp_all
  from doc_calls_Inr [OF d1] have a: "doc1 = title_ops" "clean_from L [] title_ops"
    by simp_all
  from meta_block_Inr [OF 2 [unfolded p2]] obtain cs where
    b: "doc2 = doc1 @ cs" "clean_from L doc1 cs"
    by blast
  from doc_call_Inr [OF 3] have c: "doc3 = doc2 @ [AutoTable head body yPos]"
    "\<not> throws L doc2 (AutoTable head body yPos)" by simp_all
  from doc_calls_Inr [OF 4] have d: "doc4 = doc3 @ ?ds y" "clean_from L doc3 (?ds y)"
    by simp_all
  from doc_call_Inr [OF 6] have e: "\<not> throws L doc4 (Save nm)" by simp
  have "clean_from L [] (title_ops @ cs @ [AutoTable head body yPos] @ ?ds y @ [Save nm])"
    using a(2) b(2) c(2) d(2) e
    unfolding d(1) c(1) b(1) a(1)
    by (simp add: clean_from_append)
  then have "clean_from L [] (doc4 @ [Save nm])"
    unfolding d(1) c(1) b(1) a(1) by simp
  moreover have "pdf_filename meta = Some name"
    using 5 eq(1) by (auto simp: or_type_error_def split: option.splits)
  ultimately show ?thesis using l eq by simp
qed

lemma export_pdf_null_meta:
  assumes "rows \<noteq> []" and "loaded L" and "\<And>d c. \<not> throws L d c"
    and "finalY L (title_ops @ [AutoTable (Some (rows ! 0)) (JArr (drop 1 rows)) 30]) = Some y"
  shows "export_pdf L (JArr rows) JNull =
     Inr (''Wage_Details_.pdf'',
          title_ops @ [AutoTable (Some (rows ! 0)) (JArr (drop 1 rows)) 30,
                       SetFontSize 10, SetTextColor 180 0 0,
                       DrawText disclaimer 14 (y + 12) (Some 180)])"
  using assms
  by (simp add: export_pdf_def bindE_def doc_call_def meta_block_def table_args_def
        pdf_filename_def or_type_error_def title_ops_def)

text \<open>The export on a library against the export on the library that never throws.\<close>

lemma never_throwing_simps [simp]:
  "loaded (never_throwing L) = loaded L"
  "finalY (never_throwing L) = finalY L"
  "throws (never_throwing L) d c = False"
  by (simp_all add: never_throwing_def)

lemma doc_calls_eq:
  "doc_calls L cs d = (if clean_from L d cs then Inr (d @ cs) else Inl LibraryError)"
  by (induction cs arbitrary: d) (simp_all add: bindE_def doc_call_def)

lemma clean_from_never [simp]: "clean_from (never_throwing L) d cs"
  by (induction cs arbitrary: d) simp_all

lemma url_line_plan:
  assumes "url_line (never_throwing L) u d = Inr (d', y)"
  shows "\<exists>cs. d' = d @ cs \<and>
           url_line L u d = (if clean_from L d cs then Inr (d', y) else Inl LibraryError)"
proof -
  from assms obtain url where url: "js_to_string u = Some url"
    by (cases "js_to_string u") (simp_all add: url_line_def bindE_def doc_call_def or_type_error_def)
  let ?cs = "[SetTextColor 0 0 255, DrawText (''Govt Notification PDF: '' @ url) 14 42 None,
              SetTextColor 0 0 0]"
  from assms url have "d' = d @ ?cs" "y = 52"
    by (simp_all add: url_line_def bindE_def doc_call_def or_type_error_def)
  moreover have "url_line L u d = (if clean_from L d ?cs then Inr (d @ ?cs, 52) else Inl LibraryError)"
    using url by (simp add: url_line_def bindE_def doc_call_def or_type_error_def)
  ultimately show ?thesis by blast
qed

lemma url_line_quiet:
  "url_line L u d = Inr r \<Longrightarrow> url_line (never_throwing L) u d = Inr r"
  by (cases "js_to_string u")
     (auto simp: url_line_def bindE_def doc_call_def or_type_error_def split: if_splits)

lemma meta_block_plan:
  assumes "meta_block (never_throwing L) meta d = Inr (d', y)"
  shows "\<exists>cs. d' = d @ cs \<and>
           meta_block L meta d = (if clean_from L d cs then Inr (d', y) else Inl LibraryError)"
proof (cases "truthy meta")
  case False
  then have "d' = d @ [] \<and>
      meta_block L meta d = (if clean_from L d [] then Inr (d', y) else Inl LibraryError)"
    using assms by (simp add: meta_block_def)
  then show ?thesis by blast
next
  case True
  from assms True obtain st where st: "template_string (js_get meta ''state'') = Some st"
    by (cases "template_string (js_get meta ''state'')")
       (simp_all add: meta_block_def bindE_def doc_call_def or_type_error_def)
  from assms True st obtain eff where eff: "template_string (js_get meta ''effective_from'') = Some eff"
    by (cases "template_string (js_get meta ''effective_from'')")
       (simp_all add: meta_block_def bindE_def doc_call_def or_type_error_def)
  let ?cs = "[SetFontSize 11, DrawText (''State: '' @ st) 14 30 None,
              DrawText (''Effective From: '' @ eff) 14 36 None]"
  have plain: "\<exists>cs. d' = d @ cs \<and>
           meta_block L meta d = (if clean_from L d cs then Inr (d', y) else Inl LibraryError)"
    if "js_get meta ''pdf_url'' = None \<or> (\<exists>u. js_get meta ''pdf_url'' = Some u \<and> \<not> truthy u)"
  proof -
    have "d' = d @ ?cs \<and>
           meta_block L meta d = (if clean_from L d ?cs then Inr (d', y) else Inl LibraryError)"
      using that assms True st eff
      by (auto simp: meta_block_def bindE_def doc_call_def or_type_error_def)
    then show ?thesis by blast
  qed
  show ?thesis
  proof (cases "js_get meta ''pdf_url''")
    case None
    then show ?thesis using plain by blast
  next
    case (Some u)
    show ?thesis
    proof (cases "truthy u")
      case False
      then show ?thesis using plain Some by blast
    next
      case tu: True
      have "url_line (never_throwing L) u (d @ ?cs) = Inr (d', y)"
        using assms True st eff Some tu
        by (simp add: meta_block_def bindE_def doc_call_def or_type_error_def)
      from url_line_plan [OF this] obtain cs2 where cs2: "d' = (d @ ?cs) @ cs2"
        "url_line L u (d @ ?cs) =
           (if clean_from L (d @ ?cs) cs2 then Inr (d', y) else Inl LibraryError)" by blast
      have "meta_block L meta d = (if clean_from L d ?cs then url_line L u (d @ ?cs) else Inl LibraryError)"
        using True st eff Some tu
        by (simp add: meta_block_def bindE_def doc_call_def or_type_error_def)
      then have "d' = d @ (?cs @ cs2) \<and>
        meta_block L meta d = (if clean_from L d (?cs @ cs2) then Inr (d', y) else Inl LibraryError)"
        unfolding cs2(2) clean_from_append using cs2(1) by simp
      then show ?thesis by blast
    qed
  qed
qed

lemma meta_block_quiet:
  assumes "meta_block L meta d = Inr r"
  shows "meta_block (never_throwing L) meta d = Inr r"
proof (cases "truthy meta")
  case False
  then show ?thesis using assms by (simp add: meta_block_def)
next
  case True
  from assms True obtain st where st: "template_string (js_get meta ''state'') = Some st"
    by (cases "template_string (js_get meta ''state'')")
       (auto simp: meta_block_def bindE_def doc_call_def or_type_error_def split: if_splits)
  from assms True st obtain eff where eff: "template_string (js_get meta ''effective_from'') = Some eff"
    by (cases "template_string (js_get meta ''effective_from'')")
       (auto simp: meta_block_def bindE_def doc_call_def or_type_error_def split: if_splits)
  show ?thesis
    using assms True st eff
    by (auto simp: meta_block_def bindE_def doc_call_def or_type_error_def
          split: if_splits option.splits dest: url_line_quiet)
qed


lemma export_pdf_plan:
  assumes "export_pdf (never_throwing L) tableData meta = Inr (name, doc)"
  shows "export_pdf L tableData meta =
           (if clean_from L [] (doc @ [Save name]) then Inr (name, doc) else Inl LibraryError)"
    and "\<exists>cs head body yPos y.
           table_args tableData = Inr (head, body) \<and>
           doc = title_ops @ cs @
                 [AutoTable head body yPos, SetFontSize 10, SetTextColor 180 0 0,
                  DrawText disclaimer 14 (y + 12) (Some 180)]"
proof -
  let ?Q = "never_throwing L"
  let ?ds = "\<lambda>y. [SetFontSize 10, SetTextColor 180 0 0, DrawText disclaimer 14 (y + 12) (Some 180)]"
  have l: "loaded L"
    using assms by (cases "loaded L") (simp_all add: export_pdf_def bindE_def)
  have t: "doc_calls ?Q title_ops [] = Inr title_ops"
    by (simp add: doc_calls_eq)
  obtain doc2 yPos where m: "meta_block ?Q meta title_ops = Inr (doc2, yPos)"
    using assms l t
    by (cases "meta_block ?Q meta title_ops") (auto simp: export_pdf_def bindE_def)
  obtain head body where a: "table_args tableData = Inr (head, body)"
    using assms l t m
    by (cases "table_args tableData") (auto simp: export_pdf_def bindE_def)
  let ?doc3 = "doc2 @ [AutoTable head body yPos]"
  obtain y where y: "finalY L ?doc3 = Some y"
    using assms l t m a
    by (cases "finalY L ?doc3")
       (auto simp: export_pdf_def bindE_def doc_call_def or_type_error_def)
  have quiet: "pdf_filename meta = Some name \<and> doc = ?doc3 @ ?ds y"
    using assms l t m a y
    by (cases "pdf_filename meta")
       (auto simp: export_pdf_def bindE_def doc_call_def or_type_error_def)
  from meta_block_plan [OF m] obtain cs where cs: "doc2 = title_ops @ cs"
    "meta_block L meta title_ops =
       (if clean_from L title_ops cs then Inr (doc2, yPos) else Inl LibraryError)"
    by blast
  have real: "export_pdf L tableData meta =
      (if clean_from L [] title_ops \<and> clean_from L title_ops cs
          \<and> clean_from L doc2 [AutoTable head body yPos]
          \<and> clean_from L ?doc3 (?ds y) \<and> clean_from L (?doc3 @ ?ds y) [Save name]
       then Inr (name, ?doc3 @ ?ds y) else Inl LibraryError)"
    using l a y quiet
    by (simp add: export_pdf_def doc_calls_eq cs(2) bindE_def doc_call_def or_type_error_def)
  have "clean_from L [] (doc @ [Save name]) =
      (clean_from L [] title_ops \<and> clean_from L title_ops cs
          \<and> clean_from L doc2 [AutoTable head body yPos]
          \<and> clean_from L ?doc3 (?ds y) \<and> clean_from L (?doc3 @ ?ds y) [Save name])"
    using quiet cs(1) by (simp add: clean_from_append)
  then show "export_pdf L tableData meta =
           (if clean_from L [] (doc @ [Save name]) then Inr (name, doc) else Inl LibraryError)"
    using real quiet by simp
  have "table_args tableData = Inr (head, body) \<and>
        doc = title_ops @ cs @
                 [AutoTable head body yPos, SetFontSize 10, SetTextColor 180 0 0,
                  DrawText disclaimer 14 (y + 12) (Some 180)]"
    using a quiet cs(1) by simp
  then show "\<exists>cs head body yPos y.
           table_args tableData = Inr (head, body) \<and>
           doc = title_ops @ cs @
                 [AutoTable head body yPos, SetFontSize 10, SetTextColor 180 0 0,
                  DrawText disclaimer 14 (y + 12) (Some 180)]"
    by blast
qed

lemma export_pdf_quiet:
  assumes "export_pdf L tableData meta = Inr (name, doc)"
  shows "export_pdf (never_throwing L) tableData meta = Inr (name, doc)"
proof -
  let ?ds = "\<lambda>y. [SetFontSize 10, SetTextColor 180 0 0, DrawText disclaimer 14 (y + 12) (Some 180)]"
  have l: "loaded L"
    using assms by (cases "loaded L") (simp_all add: export_pdf_def bindE_def)
  have t: "doc_calls L title_ops [] = Inr title_ops"
    using assms l by (auto simp: export_pdf_def doc_calls_eq bindE_def split: if_splits)
  obtain doc2 yPos where m: "meta_block L meta title_ops = Inr (doc2, yPos)"
    using assms l t
    by (cases "meta_block L meta title_ops") (auto simp: export_pdf_def bindE_def)
  obtain head body where a: "table_args tableData = Inr (head, body)"
    using assms l t m
    by (cases "table_args tableData") (auto simp: export_pdf_def bindE_def)
  let ?doc3 = "doc2 @ [AutoTable head body yPos]"
  have c3: "\<not> throws L doc2 (AutoTable head body yPos)"
    using assms l t m a
    by (auto simp: export_pdf_def bindE_def doc_call_def split: if_splits)
  obtain y where y: "finalY L ?doc3 = Some y"
    using assms l t m a c3
    by (cases "finalY L ?doc3")
       (auto simp: export_pdf_def bindE_def doc_call_def or_type_error_def)
  have fin: "pdf_filename meta = Some name \<and> doc = ?doc3 @ ?ds y"
    using assms l t m a c3 y
    by (cases "pdf_filename meta")
       (auto simp: export_pdf_def bindE_def doc_call_def doc_calls_eq or_type_error_def
          split: if_splits)
  show ?thesis
    using l a y fin meta_block_quiet [OF m]
    by (simp add: export_pdf_def doc_calls_eq bindE_def doc_call_def or_type_error_def)
qed

lemma export_pdf_fails:
  assumes "export_pdf (never_throwing L) tableData meta = Inl e"
  shows "\<exists>e'. export_pdf L tableData meta = Inl e'"
proof (cases "export_pdf L tableData meta")
  case (Inl e')
  then show ?thesis by blast
next
  case (Inr p)
  then have "export_pdf (never_throwing L) tableData meta = Inr p"
    using export_pdf_quiet [of L tableData meta "fst p" "snd p"] by simp
  with assms show ?thesis by simp
qed

section \<open>Parsing what \<open>JSON.stringify\<close> wrote\<close>

lemma hex_cases:
  "d < 16 \<Longrightarrow>
   d = 0 \<or> d = 1 \<or> d = 2 \<or> d = 3 \<or> d = 4 \<or> d = 5 \<or> d = 6 \<or> d = 7 \<or> d = 8 \<or> d = 9 \<or>
   d = 10 \<or> d = 11 \<or> d = 12 \<or> d = 13 \<or> d = 14 \<or> d = (15::nat)"
  by arith

lemma hex_val_hex_char: "d < 16 \<Longrightarrow> hex_val (hex_char d) = Some d"
  by (drule hex_cases) (auto simp: hex_val_def hex_char_def)

lemma parse_string_escape:
  "parse_string (escape_char c @ rest) = cons_char c (parse_string rest)"
proof (cases "(of_char c :: nat) < 32")
  case False
  then have "c \<noteq> CHR 0x08" "c \<noteq> CHR 0x0C" "c \<noteq> CHR 0x0A" "c \<noteq> CHR 0x0D" "c \<noteq> CHR 0x09"
    by auto
  with False show ?thesis
    by (auto simp: escape_char_def unescape_char_def)
next
  case True
  then have q: "c \<noteq> CHR 0x22" "c \<noteq> CHR 0x5C" by auto
  show ?thesis
  proof (cases "c = CHR 0x08 \<or> c = CHR 0x0C \<or> c = CHR 0x0A \<or> c = CHR 0x0D \<or> c = CHR 0x09")
    case True
    then show ?thesis
      by (auto simp: escape_char_def unescape_char_def)
  next
    case False
    have d: "(of_char c :: nat) div 16 < 16" "(of_char c :: nat) mod 16 < 16"
      using True by simp_all
    have z: "hex_val CHR ''0'' = Some 0" by (simp add: hex_val_def)
    have "char_of (16 * ((of_char c :: nat) div 16) + (of_char c :: nat) mod 16) = c"
      by simp
    then show ?thesis
      using True False q
      by (simp add: escape_char_def hex_val_hex_char [OF d(1)] hex_val_hex_char [OF d(2)] z)
  qed
qed

lemma parse_string_quoted:
  "parse_string (concat (map escape_char s) @ CHR 0x22 # rest) = Some (s, rest)"
  by (induction s) (simp_all add: parse_string_escape cons_char_def)

lemma show_nat_digits: "list_all is_digit (show_nat n)"
proof (induction n rule: show_nat.induct)
  case (1 n)
  show ?case
  proof (cases "n < 10")
    case True
    then show ?thesis by (simp add: show_nat.simps [of n] is_digit_digit_char)
  next
    case False
    with 1 show ?thesis by (simp add: show_nat.simps [of n] is_digit_digit_char)
  qed
qed

lemma show_nat_not_Nil: "show_nat n \<noteq> []"
  by (subst show_nat.simps) simp

lemma digit_char_zero: "d < 10 \<Longrightarrow> digit_char d = CHR ''0'' \<Longrightarrow> d = 0"
  by (drule digit_cases) (auto simp: digit_char_def)

lemma show_nat_hd: "0 < n \<Longrightarrow> hd (show_nat n) \<noteq> CHR ''0''"
proof (induction n rule: show_nat.induct)
  case (1 n)
  show ?case
  proof (cases "n < 10")
    case True
    then show ?thesis
      using "1.prems" by (auto simp: show_nat.simps [of n] dest: digit_char_zero)
  next
    case False
    then have "0 < n div 10" by simp
    with 1 False show ?thesis
      by (simp add: show_nat.simps [of n] show_nat_not_Nil)
  qed
qed

lemma show_nat_no_leading_zero: "1 < length (show_nat n) \<Longrightarrow> hd (show_nat n) \<noteq> CHR ''0''"
proof -
  assume "1 < length (show_nat n)"
  then have "0 < n"
    by (cases "n = 0") (simp_all add: show_nat.simps [of 0])
  then show ?thesis by (rule show_nat_hd)
qed

lemma delimited_not_digit: "delimited rest \<Longrightarrow> rest \<noteq> [] \<Longrightarrow> \<not> is_digit (hd rest)"
  by (auto simp: delimited_def is_digit_def)

lemma takeWhile_digits:
  assumes "list_all is_digit ds" and "delimited rest"
  shows "takeWhile is_digit (ds @ rest) = ds" and "dropWhile is_digit (ds @ rest) = rest"
proof -
  have r: "takeWhile is_digit rest = []" "dropWhile is_digit rest = rest"
    using assms(2) delimited_not_digit [of rest] by (cases rest; simp)+
  have a: "\<forall>x\<in>set ds. is_digit x"
    using assms(1) by (simp add: list_all_iff)
  show "takeWhile is_digit (ds @ rest) = ds"
    using a r by (simp add: takeWhile_append2)
  show "dropWhile is_digit (ds @ rest) = rest"
    using a r by (simp add: dropWhile_append2)
qed

lemma parse_number_show_nat:
  assumes "delimited rest"
  shows "parse_number (show_nat m @ rest) = Some (JNum (int m), rest)"
proof -
  have d: "list_all is_digit (show_nat m)" by (rule show_nat_digits)
  then have "is_digit (hd (show_nat m))"
    using show_nat_not_Nil [of m] by (cases "show_nat m") simp_all
  then have nm: "hd (show_nat m @ rest) \<noteq> CHR ''-''"
    using show_nat_not_Nil [of m] by (auto simp: is_digit_def)
  have dl: "rest \<noteq> [] \<Longrightarrow> hd rest \<noteq> CHR ''.'' \<and> hd rest \<noteq> CHR ''e'' \<and> hd rest \<noteq> CHR ''E''"
    using assms by (auto simp: delimited_def)
  show ?thesis
    using nm dl show_nat_not_Nil [of m] show_nat_no_leading_zero [of m]
    by (auto simp: parse_number_def Let_def takeWhile_digits [OF d assms] read_nat_show_nat)
qed

lemma parse_number_show_int:
  assumes "delimited rest"
  shows "parse_number (show_int n @ rest) = Some (JNum n, rest)"
proof (cases "n < 0")
  case False
  then show ?thesis
    using parse_number_show_nat [OF assms, of "nat n"] by (simp add: show_int_def)
next
  case True
  have d: "list_all is_digit (show_nat (nat (- n)))" by (rule show_nat_digits)
  have dl: "rest \<noteq> [] \<Longrightarrow> hd rest \<noteq> CHR ''.'' \<and> hd rest \<noteq> CHR ''e'' \<and> hd rest \<noteq> CHR ''E''"
    using assms by (auto simp: delimited_def)
  show ?thesis
    using True dl show_nat_not_Nil [of "nat (- n)"] show_nat_no_leading_zero [of "nat (- n)"]
    by (auto simp: show_int_def parse_number_def Let_def takeWhile_digits [OF d assms]
          read_nat_show_nat)
qed

lemma obj_put_fresh: "k \<notin> fst ` set acc \<Longrightarrow> obj_put k v acc = acc @ [(k, v)]"
  by (induction acc) auto

lemma foldl_obj_put_distinct:
  "distinct (map fst (acc @ kvs)) \<Longrightarrow>
   foldl (\<lambda>acc (k, v). obj_put k v acc) acc kvs = acc @ kvs"
proof (induction kvs arbitrary: acc)
  case Nil
  then show ?case by simp
next
  case (Cons kv kvs)
  obtain k v where kv: "kv = (k, v)" by (cases kv)
  from Cons.prems have fresh: "k \<notin> fst ` set acc"
    by (auto simp: kv)
  from Cons.prems have "distinct (map fst ((acc @ [(k, v)]) @ kvs))"
    by (simp add: kv)
  from Cons.IH [OF this] show ?case
    by (simp add: kv obj_put_fresh [OF fresh])
qed

lemma obj_of_members_distinct: "distinct (map fst kvs) \<Longrightarrow> obj_of_members kvs = kvs"
  using foldl_obj_put_distinct [of "[]" kvs] by (simp add: obj_of_members_def)

lemma value_start_facts:
  "value_start c \<Longrightarrow> \<not> is_json_ws c \<and> c \<noteq> CHR '']'' \<and> c \<noteq> CHR ''}''"
  by (auto simp: value_start_def is_json_ws_def is_digit_def)

lemma show_int_start: "\<exists>c cs. show_int n = c # cs \<and> (c = CHR ''-'' \<or> is_digit c)"
proof (cases "n < 0")
  case True
  then show ?thesis by (simp add: show_int_def)
next
  case False
  have "list_all is_digit (show_nat (nat n))" by (rule show_nat_digits)
  then show ?thesis
    using False show_nat_not_Nil [of "nat n"]
    by (cases "show_nat (nat n)") (simp_all add: show_int_def)
qed

lemma stringify_start: "\<exists>c cs. JSON_stringify v = c # cs \<and> value_start c"
proof (cases v)
  case (JNum n)
  then show ?thesis using show_int_start [of n] by (auto simp: value_start_def)
qed (auto simp: value_start_def quote_string_def)

lemma skip_ws_start: "\<not> is_json_ws c \<Longrightarrow> skip_ws (c # cs) = c # cs"
  by (simp add: skip_ws_def)

lemma join_start:
  assumes "xs \<noteq> []" and "\<And>x. x \<in> set xs \<Longrightarrow> \<exists>c cs. f x = c # cs \<and> Q c"
  shows "\<exists>c cs. join_with sep (map f xs) = c # cs \<and> Q c"
proof -
  from assms(1) obtain x ys where xs: "xs = x # ys" by (cases xs) auto
  have "x \<in> set xs" by (simp add: xs)
  from assms(2) [OF this] obtain c cs where c: "f x = c # cs" "Q c" by blast
  then show ?thesis by (cases ys) (simp_all add: xs)
qed

lemma parse_elems_join:
  assumes ih: "\<And>x f rest. x \<in> set xs \<Longrightarrow> delimited rest \<Longrightarrow> length (JSON_stringify x) \<le> f \<Longrightarrow>
                 parse_value f (JSON_stringify x @ rest) = Some (x, rest)"
    and "xs \<noteq> []"
  shows "length (join_with '','' (map JSON_stringify xs)) < f \<Longrightarrow>
         parse_elems f (join_with '','' (map JSON_stringify xs) @ CHR '']'' # rest) = Some (xs, rest)"
  using assms
proof (induction xs arbitrary: f)
  case Nil
  then show ?case by simp
next
  case (Cons x ys)
  from Cons.prems(1) obtain f' where f: "f = Suc f'" by (cases f) auto
  show ?case
  proof (cases ys)
    case Nil
    have "parse_value f' (JSON_stringify x @ CHR '']'' # rest) = Some (x, CHR '']'' # rest)"
      using Cons.prems(1) f Nil
      by (intro Cons.prems(2)) (simp_all add: delimited_def)
    then show ?thesis
      by (simp add: f Nil skip_ws_start is_json_ws_def)
  next
    case (Cons y zs)
    let ?tail = "join_with '','' (map JSON_stringify ys) @ CHR '']'' # rest"
    have "parse_value f' (JSON_stringify x @ CHR '','' # ?tail) = Some (x, CHR '','' # ?tail)"
      using Cons.prems(1) f Cons
      by (intro Cons.prems(2)) (simp_all add: delimited_def)
    moreover have "parse_elems f' ?tail = Some (ys, rest)"
      using Cons.prems(1) f Cons
      by (intro Cons.IH Cons.prems(2)) simp_all
    ultimately show ?thesis
      by (simp add: f Cons skip_ws_start is_json_ws_def)
  qed
qed

lemma parse_members_join:
  assumes ih: "\<And>k v f rest. (k, v) \<in> set kvs \<Longrightarrow> delimited rest \<Longrightarrow>
                 length (JSON_stringify v) \<le> f \<Longrightarrow>
                 parse_value f (JSON_stringify v @ rest) = Some (v, rest)"
    and "kvs \<noteq> []"
  shows "length (join_with '','' (map (\<lambda>(k, v). quote_string k @ '':'' @ JSON_stringify v) kvs)) < f \<Longrightarrow>
         parse_members f
           (join_with '','' (map (\<lambda>(k, v). quote_string k @ '':'' @ JSON_stringify v) kvs)
            @ CHR ''}'' # rest) = Some (kvs, rest)"
  using assms
proof (induction kvs arbitrary: f)
  case Nil
  then show ?case by simp
next
  case (Cons kv ys)
  obtain k v where kv: "kv = (k, v)" by (cases kv)
  from Cons.prems(1) obtain f' where f: "f = Suc f'" by (cases f) auto
  have key: "\<And>tail. parse_string (concat (map escape_char k) @ CHR 0x22 # tail) = Some (k, tail)"
    by (rule parse_string_quoted)
  show ?case
  proof (cases ys)
    case Nil
    have "parse_value f' (JSON_stringify v @ CHR ''}'' # rest) = Some (v, CHR ''}'' # rest)"
      using Cons.prems(1) f Nil kv
      by (intro Cons.prems(2) [of k]) (simp_all add: delimited_def)
    then show ?thesis
      by (simp add: f Nil kv quote_string_def skip_ws_start is_json_ws_def key)
  next
    case (Cons y zs)
    let ?tail = "join_with '','' (map (\<lambda>(k, v). quote_string k @ '':'' @ JSON_stringify v) ys)
                 @ CHR ''}'' # rest"
    have "parse_value f' (JSON_stringify v @ CHR '','' # ?tail) = Some (v, CHR '','' # ?tail)"
      using Cons.prems(1) f Cons kv
      by (intro Cons.prems(2) [of k]) (simp_all add: delimited_def)
    moreover have "parse_members f' ?tail = Some (ys, rest)"
      using Cons.prems(1) f Cons kv
      by (intro Cons.IH Cons.prems(2)) (simp_all, fastforce)
    ultimately show ?thesis
      by (simp add: f Cons kv quote_string_def skip_ws_start is_json_ws_def key)
  qed
qed

lemma parse_value_stringify:
  "json_wf v \<Longrightarrow> delimited rest \<Longrightarrow> length (JSON_stringify v) \<le> f \<Longrightarrow>
   parse_value f (JSON_stringify v @ rest) = Some (v, rest)"
proof (induction v arbitrary: f rest)
  case JNull
  then obtain f' where "f = Suc f'" by (cases f) auto
  then show ?case by (simp add: skip_ws_start is_json_ws_def)
next
  case (JBool b)
  then obtain f' where "f = Suc f'" by (cases f; cases b) auto
  then show ?case by (cases b) (simp_all add: skip_ws_start is_json_ws_def)
next
  case (JNum n)
  have "length (show_int n) \<noteq> 0"
    using show_int_start [of n] by auto
  with JNum obtain f' where f: "f = Suc f'" by (cases f) auto
  obtain c cs where c: "show_int n = c # cs" "c = CHR ''-'' \<or> is_digit c"
    using show_int_start by blast
  have "parse_number (c # cs @ rest) = Some (JNum n, rest)"
    using parse_number_show_int [OF JNum.prems(2), of n] c(1) by simp
  moreover have "\<not> is_json_ws c" "c \<noteq> CHR 0x22" "c \<noteq> CHR ''[''" "c \<noteq> CHR ''{''"
    "c \<noteq> CHR ''n''" "c \<noteq> CHR ''t''" "c \<noteq> CHR ''f''"
    using c(2) by (auto simp: is_digit_def is_json_ws_def)
  ultimately show ?case
    by (simp add: f c(1) skip_ws_start)
next
  case (JStr s)
  then obtain f' where "f = Suc f'" by (cases f) (auto simp: quote_string_def)
  then show ?case
    by (simp add: quote_string_def skip_ws_start is_json_ws_def parse_string_quoted)
next
  case (JArr xs)
  from JArr.prems(3) obtain f' where f: "f = Suc f'" by (cases f) auto
  show ?case
  proof (cases "xs = []")
    case True
    then show ?thesis by (simp add: f skip_ws_start is_json_ws_def)
  next
    case False
    have ih: "\<And>x f rest. x \<in> set xs \<Longrightarrow> delimited rest \<Longrightarrow> length (JSON_stringify x) \<le> f \<Longrightarrow>
                 parse_value f (JSON_stringify x @ rest) = Some (x, rest)"
      using JArr.IH JArr.prems(1) by (simp add: list_all_iff)
    have "length (join_with '','' (map JSON_stringify xs)) < f'"
      using JArr.prems(3) f by simp
    then have e: "parse_elems f' (join_with '','' (map JSON_stringify xs) @ CHR '']'' # rest)
                  = Some (xs, rest)"
      using ih False by (rule parse_elems_join [rotated 2])
    obtain c cs where c: "join_with '','' (map JSON_stringify xs) = c # cs" "value_start c"
      using join_start [OF False, of JSON_stringify value_start] stringify_start by blast
    from value_start_facts [OF c(2)] e show ?thesis
      by (simp add: f c(1) skip_ws_start is_json_ws_def)
  qed
next
  case (JObj kvs)
  from JObj.prems(3) obtain f' where f: "f = Suc f'" by (cases f) auto
  have d: "obj_of_members kvs = kvs"
    using JObj.prems(1) by (simp add: obj_of_members_distinct)
  let ?m = "\<lambda>(k, v). quote_string k @ '':'' @ JSON_stringify v"
  show ?case
  proof (cases "kvs = []")
    case True
    then show ?thesis by (simp add: f skip_ws_start is_json_ws_def)
  next
    case False
    have ih: "\<And>k v f rest. (k, v) \<in> set kvs \<Longrightarrow> delimited rest \<Longrightarrow>
                 length (JSON_stringify v) \<le> f \<Longrightarrow>
                 parse_value f (JSON_stringify v @ rest) = Some (v, rest)"
    proof -
      fix k v f rest
      assume m: "(k, v) \<in> set kvs" and r: "delimited rest" and l: "length (JSON_stringify v) \<le> f"
      have "json_wf v" using JObj.prems(1) m by (auto simp: list_all_iff)
      moreover have "v \<in> Basic_BNFs.snds (k, v)" by simp
      ultimately show "parse_value f (JSON_stringify v @ rest) = Some (v, rest)"
        using JObj.IH [OF m _ _ r l] by blast
    qed
    have "length (join_with '','' (map ?m kvs)) < f'"
      using JObj.prems(3) f by simp
    then have e: "parse_members f' (join_with '','' (map ?m kvs) @ CHR ''}'' # rest)
                  = Some (kvs, rest)"
      using ih False by (rule parse_members_join [rotated 2])
    have "\<exists>c cs. join_with '','' (map ?m kvs) = c # cs \<and> c = CHR 0x22"
      by (rule join_start [OF False]) (auto simp: quote_string_def)
    then obtain cs where c: "join_with '','' (map ?m kvs) = CHR 0x22 # cs" by blast
    from e show ?thesis
      using c [simplified] by (simp add: f skip_ws_start is_json_ws_def d)
  qed
qed

lemma JSON_parse_stringify: "json_wf v \<Longrightarrow> JSON_parse (JSON_stringify v) = Some v"
  using parse_value_stringify [of v "[]" "Suc (length (JSON_stringify v))"]
  by (simp add: JSON_parse_def delimited_def skip_ws_def)

lemma is_JStr_wf: "is_JStr c \<Longrightarrow> json_wf c"
  by (cases c) simp_all

lemma string_row_wf: "is_string_row r \<Longrightarrow> json_wf r"
  by (cases r) (auto simp: is_string_row_def list_all_iff is_JStr_wf)

lemma table_payload_wf: "is_table_payload t \<Longrightarrow> json_wf t"
  by (cases t) (auto simp: is_table_payload_def list_all_iff string_row_wf)

lemma hello_page_input: "trim (userInput hello_page) = ''Hello''"
  by (simp add: hello_page_def trim_def is_js_space_def)

lemma hello_page_tidy: "tidy (chatBox hello_page)"
  by (simp add: hello_page_def is_typing_def tidy_def)

lemma hello_page_clean:
  "markup_ids plain_browser (display_html (trim (userInput hello_page))) = 0"
  by (simp add: markup_ids_def plain_browser_def)

lemma export_pdf_delhi:
  "export_pdf example_lib wage_table delhi_meta = Inr (''Wage_Details_Delhi.pdf'', delhi_document)"
  by (simp add: export_pdf_def bindE_def doc_call_def meta_block_def url_line_def table_args_def
        pdf_filename_def or_type_error_def title_ops_def example_lib_def wage_table_def
        delhi_meta_def template_string_def delhi_document_def)

section \<open>The claims\<close>

text \<open>
  C4.  When the input is empty or consists of white space only, \<open>sendChatMessage\<close> does
  nothing: it returns before the request is issued, and the page it leaves is the page
  it found (no message appended, no request recorded, the input field as it was).
\<close>

theorem blank_input_is_a_no_op:
  assumes "trim (userInput s) = []"
  shows "sendChatMessage_begin P now s = None \<and> sendChatMessage P now outcome s = s"
  using assms by (simp add: sendChatMessage_def sendChatMessage_begin_def)

theorem blank_input_is_a_no_op_witness:
  "trim (userInput busy_page) = []
   \<and> sendChatMessage_begin plain_browser 9 busy_page = None
   \<and> sendChatMessage plain_browser 9 Rejected busy_page = busy_page"
proof -
  have blank: "trim (userInput busy_page) = []"
    by (simp add: busy_page_def trim_def is_js_space_def)
  show ?thesis
    using blank blank_input_is_a_no_op [OF blank, of plain_browser 9 Rejected] by simp
qed

text \<open>
  C8.  \<open>startNewSession\<close> leaves a chat box that holds the greeting of the bot and
  nothing else, so no typing indicator; the session id is \<open>session_\<close> followed by the
  clock reading, which differs from the id of every other clock reading; the quick-action
  container, when the page has one, is displayed as \<open>flex\<close>; and the result does not
  depend on an earlier start.
\<close>

theorem start_clean_slate:
  "chatBox (startNewSession P now s) = [Message Bot None greeting 0]
   \<and> typing_count (chatBox (startNewSession P now s)) = 0
   \<and> sessionId (startNewSession P now s) = Some (''session_'' @ show_nat now)
   \<and> (\<forall>t. t \<noteq> now \<longrightarrow> sessionId (startNewSession P now s) \<noteq> Some (''session_'' @ show_nat t))
   \<and> (\<forall>d. categoryBtnContainer s = Some d \<longrightarrow> categoryBtnContainer (startNewSession P now s) = Some ''flex'')
   \<and> startNewSession P now (startNewSession P t0 s) = startNewSession P now s"
  by (cases "categoryBtnContainer s")
     (auto simp: startNewSession_eq is_typing_def dest: show_nat_inject)

theorem start_clean_slate_witness:
  "chatBox (startNewSession plain_browser 5 busy_page) = [Message Bot None greeting 0]
   \<and> typing_count (chatBox (startNewSession plain_browser 5 busy_page)) = 0
   \<and> sessionId (startNewSession plain_browser 5 busy_page) = Some (''session_'' @ show_nat 5)
   \<and> sessionId (startNewSession plain_browser 5 busy_page) \<noteq> Some (''session_'' @ show_nat 1)
   \<and> categoryBtnContainer (startNewSession plain_browser 5 busy_page) = Some ''flex''
   \<and> startNewSession plain_browser 5 (startNewSession plain_browser 1 busy_page) =
       startNewSession plain_browser 5 busy_page"
proof -
  have shown: "categoryBtnContainer busy_page = Some ''none''"
    by (simp add: busy_page_def)
  have other: "(1::nat) \<noteq> 5"
    by simp
  show ?thesis
    using start_clean_slate [of plain_browser 5 busy_page 1] shown other by blast
qed




text \<open>
  A send with non-blank input whose markup holds no element with the id
  \<open>typing-indicator-wrapper\<close>, from a tidy log (at most one typing indicator, and no
  element with its id inside a node), whatever the outcome of the request: the log is
  the log the send found (after the start of a session when there was none, and without
  the typing indicator), then the one bubble of the user, then nodes that are not the
  user's; and no typing indicator is left.  In a browser in whose run no markup carries
  that id, every page the script reaches has a tidy log (\<open>reachable_tidy\<close>).
\<close>

lemma send_from_tidy_log:
  assumes "trim (userInput s) \<noteq> []" and "tidy (chatBox s)"
    and "markup_ids P (display_html (trim (userInput s))) = 0"
  shows "\<exists>post. chatBox (sendChatMessage P now outcome s) =
              log_before_send P now s @ [user_bubble P (trim (userInput s))] @ post
            \<and> list_all (\<lambda>n. \<not> is_user_message n) post
            \<and> typing_count (chatBox (sendChatMessage P now outcome s)) = 0"
proof -
  from sendChatMessage_chatBox [OF assms(1), of P now outcome] obtain en where
    "chatBox (sendChatMessage P now outcome s) =
       after_removals en (chatBox (awaiting P now s)) @ ending_nodes P en" ..
  then have eq: "chatBox (sendChatMessage P now outcome s) =
       log_before_send P now s @ [user_bubble P (trim (userInput s))] @ ending_nodes P en"
    by (simp add: after_removals_awaiting [OF assms(2,3)])
  moreover have "typing_count (log_before_send P now s) = 0"
    using tidy_log_before_send [OF assms(2)] by simp
  ultimately show ?thesis
    using ending_nodes_facts [of P en]
    by (intro exI [of _ "ending_nodes P en"])
       (simp add: is_typing_def user_bubble_def bubble_def)
qed

lemma send_from_tidy_log_example:
  "trim (userInput hello_page) \<noteq> []
   \<and> tidy (chatBox hello_page)
   \<and> markup_ids plain_browser (display_html (trim (userInput hello_page))) = 0
   \<and> (\<exists>post. chatBox (sendChatMessage plain_browser 7 Rejected hello_page) =
              log_before_send plain_browser 7 hello_page @
                [user_bubble plain_browser (trim (userInput hello_page))] @ post
            \<and> list_all (\<lambda>n. \<not> is_user_message n) post
            \<and> typing_count (chatBox (sendChatMessage plain_browser 7 Rejected hello_page)) = 0)"
proof -
  have h1: "trim (userInput hello_page) \<noteq> []"
    by (simp add: hello_page_input)
  show ?thesis
    using send_from_tidy_log [OF h1 hello_page_tidy hello_page_clean, of 7 Rejected]
      h1 hello_page_tidy hello_page_clean
    by blast
qed

text \<open>
  C2.  The text of a message is assigned to \<open>innerHTML\<close> (line 99), so the input
  \<^verbatim>\<open><p id=typing-indicator-wrapper>\<close> puts an element with the id of the typing indicator
  into the user's bubble, in front of the typing indicator.  \<open>removeTypingIndicator\<close> at
  line 64 is meant to remove the typing indicator; \<open>getElementById\<close> finds the element in
  the user's bubble and removes that.  The table branch returns with the typing
  indicator in the log, and so does the empty turn: one user message appended, one
  typing indicator left.  With a text reply, or on a failure, \<open>addMessageToChatbox\<close>
  removes once more and no typing indicator is left.
\<close>

theorem typing_indicator_survives_a_send:
  "trim (userInput markup_page) \<noteq> []
   \<and> chatBox (sendChatMessage browser 7
         (Responded True (Some (JObj [(''table'', wage_table)]))) markup_page) =
       [Message Bot None greeting 0,
        Message User None ''<p id=typing-indicator-wrapper>'' 0,
        Message Bot (Some ''typing-indicator-wrapper'') ''Typing...'' 0,
        Card \<lparr>card_meta = None,
              table_html = ''<table class='' @ [CHR 0x22] @ ''wage-table'' @ [CHR 0x22] @
                 ''><tr><th>State</th><th>Rate</th></tr><tr><td>Delhi</td><td>500</td></tr></table>'',
              dataset_tabledata = JSON_stringify wage_table,
              dataset_meta = ''null''\<rparr> 0]
   \<and> typing_count (chatBox (sendChatMessage browser 7
         (Responded True (Some (JObj [(''table'', wage_table)]))) markup_page)) = 1
   \<and> typing_count (chatBox (sendChatMessage browser 7
         (Responded True (Some (JObj []))) markup_page)) = 1
   \<and> typing_count (chatBox (sendChatMessage browser 7
         (Responded True (Some (JObj [(''reply'', JStr ''hi'')]))) markup_page)) = 0
   \<and> typing_count (chatBox (sendChatMessage browser 7 Rejected markup_page)) = 0"
  by code_simp

text \<open>
  C3, as the script behaves.  A body that does not parse ends the \<open>try\<close> block by a
  \<open>SyntaxError\<close> before line 64: the error is logged, the \<open>catch\<close> clause removes the
  typing indicator (lines 79 and 86) and the apology is shown.  The turn is empty (line
  64 removes the typing indicator, nothing is appended, nothing is logged) when the body
  parses to a value other than \<open>null\<close> for which neither the condition of line 67 (a
  truthy \<open>table\<close> with \<open>length > 0\<close>) nor the condition of line 73 (a truthy \<open>reply\<close> that is
  not blank) holds, and neither throws.  From a tidy log and an input without an element
  of the indicator's id, what the first removal leaves is the log the send found, then
  the user's bubble, and a further removal changes nothing.
\<close>

theorem malformed_response:
  assumes "trim (userInput s) \<noteq> []"
  shows "chatBox (sendChatMessage P now (Responded True None) s) =
           remove_first_indicator (remove_first_indicator (chatBox (awaiting P now s)))
             @ [apology_bubble]
         \<and> console (sendChatMessage P now (Responded True None) s) =
           console s @ [(''Chat Error:'', SyntaxError)]
         \<and> (data \<noteq> JNull
              \<and> table_to_show (string_bound P) (js_get data ''table'') = Some None
              \<and> reply_to_show (js_get data ''reply'') = Some None
            \<longrightarrow> chatBox (sendChatMessage P now (Responded True (Some data)) s) =
                  remove_first_indicator (chatBox (awaiting P now s))
                \<and> console (sendChatMessage P now (Responded True (Some data)) s) = console s)
         \<and> (tidy (chatBox s) \<and> markup_ids P (display_html (trim (userInput s))) = 0 \<longrightarrow>
              remove_first_indicator (chatBox (awaiting P now s)) =
                log_before_send P now s @ [user_bubble P (trim (userInput s))]
              \<and> remove_first_indicator
                  (log_before_send P now s @ [user_bubble P (trim (userInput s))]) =
                log_before_send P now s @ [user_bubble P (trim (userInput s))])"
proof -
  note u = send_unparsable [OF assms, of P now]
  have a: "chatBox (sendChatMessage P now (Responded True None) s) =
           remove_first_indicator (remove_first_indicator (chatBox (awaiting P now s)))
             @ [apology_bubble]"
    by (subst u) simp
  have b: "console (sendChatMessage P now (Responded True None) s) =
           console s @ [(''Chat Error:'', SyntaxError)]"
    by (subst u) simp
  have c: "chatBox (sendChatMessage P now (Responded True (Some data)) s) =
                  remove_first_indicator (chatBox (awaiting P now s))
                \<and> console (sendChatMessage P now (Responded True (Some data)) s) = console s"
    if "data \<noteq> JNull" "table_to_show (string_bound P) (js_get data ''table'') = Some None"
       "reply_to_show (js_get data ''reply'') = Some None"
    by (subst send_empty_turn [OF assms that], subst send_empty_turn [OF assms that])
       (simp add: console_awaiting)
  have d: "remove_first_indicator (chatBox (awaiting P now s)) =
                log_before_send P now s @ [user_bubble P (trim (userInput s))]
              \<and> remove_first_indicator
                  (log_before_send P now s @ [user_bubble P (trim (userInput s))]) =
                log_before_send P now s @ [user_bubble P (trim (userInput s))]"
    if "tidy (chatBox s)" "markup_ids P (display_html (trim (userInput s))) = 0"
    using removals_awaiting [OF that, of now] by simp
  show ?thesis
    using a b c d by blast
qed

theorem malformed_response_witness:
  "trim (userInput hello_page) \<noteq> []
   \<and> tidy (chatBox hello_page)
   \<and> markup_ids plain_browser (display_html (trim (userInput hello_page))) = 0
   \<and> JObj [(''reply'', JStr ''  '')] \<noteq> JNull
   \<and> table_to_show (string_bound plain_browser) (js_get (JObj [(''reply'', JStr ''  '')]) ''table'')
       = Some None
   \<and> reply_to_show (js_get (JObj [(''reply'', JStr ''  '')]) ''reply'') = Some None
   \<and> chatBox (sendChatMessage plain_browser 7 (Responded True None) hello_page) =
       log_before_send plain_browser 7 hello_page @
         [user_bubble plain_browser (trim (userInput hello_page))] @ [apology_bubble]
   \<and> console (sendChatMessage plain_browser 7 (Responded True None) hello_page) =
       console hello_page @ [(''Chat Error:'', SyntaxError)]
   \<and> chatBox (sendChatMessage plain_browser 7
         (Responded True (Some (JObj [(''reply'', JStr ''  '')]))) hello_page) =
       log_before_send plain_browser 7 hello_page @
         [user_bubble plain_browser (trim (userInput hello_page))]
   \<and> console (sendChatMessage plain_browser 7
         (Responded True (Some (JObj [(''reply'', JStr ''  '')]))) hello_page) =
       console hello_page"
proof -
  have h1: "trim (userInput hello_page) \<noteq> []"
    by (simp add: hello_page_input)
  have h3: "JObj [(''reply'', JStr ''  '')] \<noteq> JNull"
    by simp
  have h4: "table_to_show (string_bound plain_browser)
      (js_get (JObj [(''reply'', JStr ''  '')]) ''table'') = Some None"
    by (simp add: table_to_show_def)
  have h5: "reply_to_show (js_get (JObj [(''reply'', JStr ''  '')]) ''reply'') = Some None"
    by (simp add: reply_to_show_def trim_def is_js_space_def)
  show ?thesis
    using malformed_response [OF h1, of plain_browser 7 "JObj [(''reply'', JStr ''  '')]"]
      h1 hello_page_tidy hello_page_clean h3 h4 h5
    by simp
qed

text \<open>
  C3 as the spec states it fails: a response with a success status whose body is not
  JSON, and one whose body \<open>{"reply": 5}\<close> has neither shape, both end with the error in
  the console and the apology in the log.
\<close>

theorem malformed_response_counterexample:
  "chatBox (sendChatMessage plain_browser 7 (Responded True None) hello_page) =
     [Message Bot None greeting 0, Message User None ''Hello'' 0, Message Bot None apology 0]
   \<and> console (sendChatMessage plain_browser 7 (Responded True None) hello_page) =
     [(''Chat Error:'', SyntaxError)]
   \<and> chatBox (sendChatMessage plain_browser 7
         (Responded True (Some (JObj [(''reply'', JNum 5)]))) hello_page) =
     [Message Bot None greeting 0, Message User None ''Hello'' 0, Message Bot None apology 0]
   \<and> console (sendChatMessage plain_browser 7
         (Responded True (Some (JObj [(''reply'', JNum 5)]))) hello_page) =
     [(''Chat Error:'', TypeError)]"
  by code_simp

text \<open>
  C5.  The document the export sets out to make is the one it saves when no call of the
  library throws: the title lines, the meta block, the table and the disclaimer.  On the
  library \<open>L\<close> the export makes the calls of that document and then \<open>doc.save\<close>, in
  order.  When none of them throws, it saves that whole document.  When one of them
  throws, nothing is handed to \<open>doc.save\<close>: the page keeps its downloads, the exception
  is logged once and one alert is raised.  When there is no document to make (the
  library is missing, a conversion throws, or \<open>lastAutoTable\<close> is missing), the export
  also ends by an exception that is logged once, with one alert and nothing saved.
\<close>

theorem export_is_all_or_nothing:
  "(case export_pdf (never_throwing L) tableData meta of
      Inl e \<Rightarrow>
        (\<exists>e'. downloadTableAsPDF L tableData meta s =
                s\<lparr>console := console s @ [(''PDF Error:'', e')],
                  alerts := alerts s @ [''PDF generation failed. Check console.'']\<rparr>)
    | Inr (name, doc) \<Rightarrow>
        (\<exists>cs head body yPos y.
            table_args tableData = Inr (head, body) \<and>
            doc = title_ops @ cs @
                  [AutoTable head body yPos, SetFontSize 10, SetTextColor 180 0 0,
                   DrawText disclaimer 14 (y + 12) (Some 180)])
        \<and> downloadTableAsPDF L tableData meta s =
            (if clean_from L [] (doc @ [Save name])
             then s\<lparr>downloads := downloads s @ [(name, doc)]\<rparr>
             else s\<lparr>console := console s @ [(''PDF Error:'', LibraryError)],
                    alerts := alerts s @ [''PDF generation failed. Check console.'']\<rparr>))"
proof (cases "export_pdf (never_throwing L) tableData meta")
  case (Inl e)
  from export_pdf_fails [OF Inl] obtain e' where "export_pdf L tableData meta = Inl e'" ..
  then have "downloadTableAsPDF L tableData meta s =
                s\<lparr>console := console s @ [(''PDF Error:'', e')],
                  alerts := alerts s @ [''PDF generation failed. Check console.'']\<rparr>"
    by (simp add: downloadTableAsPDF_def)
  then show ?thesis using Inl by auto
next
  case (Inr p)
  obtain name doc where p: "p = (name, doc)" by (cases p)
  note plan = export_pdf_plan [OF Inr [unfolded p]]
  have "downloadTableAsPDF L tableData meta s =
            (if clean_from L [] (doc @ [Save name])
             then s\<lparr>downloads := downloads s @ [(name, doc)]\<rparr>
             else s\<lparr>console := console s @ [(''PDF Error:'', LibraryError)],
                    alerts := alerts s @ [''PDF generation failed. Check console.'']\<rparr>)"
    by (simp add: downloadTableAsPDF_def plan(1))
  then show ?thesis
    using Inr p plan(2) by simp
qed

theorem export_is_all_or_nothing_witness:
  "export_pdf (never_throwing failing_lib) wage_table JNull =
     Inr (''Wage_Details_.pdf'',
          title_ops @ [AutoTable (Some (JArr [JStr ''State'', JStr ''Rate'']))
                         (JArr [JArr [JStr ''Delhi'', JStr ''500'']]) 30,
                       SetFontSize 10, SetTextColor 180 0 0,
                       DrawText disclaimer 14 69 (Some 180)])
   \<and> throws failing_lib (title_ops @ [AutoTable (Some (JArr [JStr ''State'', JStr ''Rate'']))
         (JArr [JArr [JStr ''Delhi'', JStr ''500'']]) 30, SetFontSize 10]) (SetTextColor 180 0 0)
   \<and> downloadTableAsPDF failing_lib wage_table JNull hello_page =
       hello_page\<lparr>console := console hello_page @ [(''PDF Error:'', LibraryError)],
                  alerts := alerts hello_page @ [''PDF generation failed. Check console.'']\<rparr>
   \<and> downloads (downloadTableAsPDF failing_lib wage_table JNull hello_page) = downloads hello_page
   \<and> downloadTableAsPDF (never_throwing failing_lib) wage_table JNull hello_page =
       hello_page\<lparr>downloads := downloads hello_page @
          [(''Wage_Details_.pdf'',
            title_ops @ [AutoTable (Some (JArr [JStr ''State'', JStr ''Rate'']))
                           (JArr [JArr [JStr ''Delhi'', JStr ''500'']]) 30,
                         SetFontSize 10, SetTextColor 180 0 0,
                         DrawText disclaimer 14 69 (Some 180)])]\<rparr>"
proof -
  let ?doc = "title_ops @ [AutoTable (Some (JArr [JStr ''State'', JStr ''Rate'']))
                         (JArr [JArr [JStr ''Delhi'', JStr ''500'']]) 30,
                       SetFontSize 10, SetTextColor 180 0 0,
                       DrawText disclaimer 14 69 (Some 180)]"
  have q: "export_pdf (never_throwing failing_lib) wage_table JNull =
             Inr (''Wage_Details_.pdf'', ?doc)"
    by (simp add: export_pdf_def bindE_def doc_call_def meta_block_def table_args_def
        pdf_filename_def or_type_error_def title_ops_def failing_lib_def wage_table_def)
  have t: "throws failing_lib (title_ops @ [AutoTable (Some (JArr [JStr ''State'', JStr ''Rate'']))
         (JArr [JArr [JStr ''Delhi'', JStr ''500'']]) 30, SetFontSize 10]) (SetTextColor 180 0 0)"
    by (simp add: failing_lib_def)
  have n: "\<not> clean_from failing_lib [] (?doc @ [Save ''Wage_Details_.pdf''])"
    by (simp add: title_ops_def failing_lib_def)
  have c: "clean_from (never_throwing failing_lib) [] (?doc @ [Save ''Wage_Details_.pdf''])"
    by simp
  have nn: "never_throwing (never_throwing failing_lib) = never_throwing failing_lib"
    by (simp add: never_throwing_def)
  have a: "downloadTableAsPDF failing_lib wage_table JNull hello_page =
       hello_page\<lparr>console := console hello_page @ [(''PDF Error:'', LibraryError)],
                  alerts := alerts hello_page @ [''PDF generation failed. Check console.'']\<rparr>"
    using export_is_all_or_nothing [of failing_lib wage_table JNull hello_page] n
    by (simp add: q)
  have b: "downloadTableAsPDF (never_throwing failing_lib) wage_table JNull hello_page =
       hello_page\<lparr>downloads := downloads hello_page @ [(''Wage_Details_.pdf'', ?doc)]\<rparr>"
    using export_is_all_or_nothing [of "never_throwing failing_lib" wage_table JNull hello_page] c
    by (simp add: q nn)
  have d: "downloads (downloadTableAsPDF failing_lib wage_table JNull hello_page) =
      downloads hello_page"
    by (subst a) simp
  show ?thesis
    using q t a b d by (intro conjI)
qed

text \<open>
  C7.  When an export saves a document, the name it saves under is \<open>pdf_filename meta\<close>:
  \<open>Wage_Details_\<close>, the state, \<open>.pdf\<close> when \<open>meta.state\<close> is a string, and the fixed
  \<open>Wage_Details_.pdf\<close> when \<open>meta\<close> is \<open>null\<close> or has no state.  The name depends on \<open>meta\<close>
  only: any other export with the same \<open>meta\<close>, whatever the table and the state of the
  library, saves under the same name.
\<close>

theorem filename_from_state:
  assumes "export_pdf L tableData meta = Inr (name, doc)"
  shows "downloads (downloadTableAsPDF L tableData meta s) = downloads s @ [(name, doc)]
         \<and> pdf_filename meta = Some name
         \<and> (\<forall>st. js_get meta ''state'' = Some (JStr st) \<longrightarrow> name = ''Wage_Details_'' @ st @ ''.pdf'')
         \<and> (meta = JNull \<or> js_get meta ''state'' = None \<longrightarrow> name = ''Wage_Details_.pdf'')
         \<and> (\<forall>L' tableData' name' doc'.
               export_pdf L' tableData' meta = Inr (name', doc') \<longrightarrow> name' = name)"
proof -
  have n: "pdf_filename meta = Some name"
    using export_pdf_Inr [OF assms] by simp
  have d: "downloads (downloadTableAsPDF L tableData meta s) = downloads s @ [(name, doc)]"
    using assms by (simp add: downloadTableAsPDF_def)
  have same: "name' = name" if "export_pdf L' tableData' meta = Inr (name', doc')"
    for L' tableData' name' doc'
  proof -
    have "pdf_filename meta = Some name'"
      using export_pdf_Inr [OF that] by simp
    with n show ?thesis by simp
  qed
  have st: "name = ''Wage_Details_'' @ st @ ''.pdf''"
    if "js_get meta ''state'' = Some (JStr st)" for st
    using n that by (cases "meta = JNull") (auto simp: pdf_filename_def split: if_splits)
  have fallback: "name = ''Wage_Details_.pdf''" if "meta = JNull \<or> js_get meta ''state'' = None"
    using n that by (auto simp: pdf_filename_def split: if_splits)
  show ?thesis
    using n d same st fallback by blast
qed

theorem filename_from_state_witness:
  "export_pdf example_lib wage_table delhi_meta = Inr (''Wage_Details_Delhi.pdf'', delhi_document)
   \<and> js_get delhi_meta ''state'' = Some (JStr ''Delhi'')
   \<and> downloads (downloadTableAsPDF example_lib wage_table delhi_meta hello_page) =
       downloads hello_page @ [(''Wage_Details_Delhi.pdf'', delhi_document)]
   \<and> pdf_filename delhi_meta = Some ''Wage_Details_Delhi.pdf''
   \<and> ''Wage_Details_Delhi.pdf'' = ''Wage_Details_'' @ ''Delhi'' @ ''.pdf''"
proof -
  have st: "js_get delhi_meta ''state'' = Some (JStr ''Delhi'')"
    by (simp add: delhi_meta_def)
  show ?thesis
    using filename_from_state [OF export_pdf_delhi, of hello_page] export_pdf_delhi st
    by blast
qed

text \<open>
  C10.  The export of a table with at least one row and \<open>null\<close> for \<open>meta\<close>, on a library
  that is loaded, does not throw and reports a \<open>finalY\<close>: it saves, under the name
  \<open>Wage_Details_.pdf\<close>, the document with the two title lines, the table right below
  them (at 30) and the disclaimer, and no meta line.  The two places that read \<open>meta\<close>,
  the meta block and the file name, do not throw for \<open>null\<close> on any library.
\<close>

theorem export_with_null_meta:
  assumes "rows \<noteq> []" and "loaded L" and "\<forall>d c. \<not> throws L d c"
    and "finalY L (title_ops @ [AutoTable (Some (rows ! 0)) (JArr (drop 1 rows)) 30]) = Some y"
  shows "downloadTableAsPDF L (JArr rows) JNull s =
           s\<lparr>downloads := downloads s @
              [(''Wage_Details_.pdf'',
                title_ops @ [AutoTable (Some (rows ! 0)) (JArr (drop 1 rows)) 30,
                             SetFontSize 10, SetTextColor 180 0 0,
                             DrawText disclaimer 14 (y + 12) (Some 180)])]\<rparr>
         \<and> meta_block L JNull d0 = Inr (d0, 30)
         \<and> pdf_filename JNull = Some ''Wage_Details_.pdf''"
  using assms
  by (simp add: downloadTableAsPDF_def export_pdf_null_meta meta_block_def pdf_filename_def)

theorem export_with_null_meta_witness:
  "[JArr [JStr ''State'', JStr ''Rate''], JArr [JStr ''Delhi'', JStr ''500'']] \<noteq> []
   \<and> loaded example_lib
   \<and> (\<forall>d c. \<not> throws example_lib d c)
   \<and> finalY example_lib (title_ops @ [AutoTable (Some (JArr [JStr ''State'', JStr ''Rate'']))
         (JArr [JArr [JStr ''Delhi'', JStr ''500'']]) 30]) = Some 57
   \<and> downloadTableAsPDF example_lib wage_table JNull hello_page =
       hello_page\<lparr>downloads :=
          [(''Wage_Details_.pdf'',
            title_ops @ [AutoTable (Some (JArr [JStr ''State'', JStr ''Rate'']))
                           (JArr [JArr [JStr ''Delhi'', JStr ''500'']]) 30,
                         SetFontSize 10, SetTextColor 180 0 0,
                         DrawText disclaimer 14 69 (Some 180)])]\<rparr>"
proof -
  let ?rows = "[JArr [JStr ''State'', JStr ''Rate''], JArr [JStr ''Delhi'', JStr ''500'']]"
  have h1: "?rows \<noteq> []" by simp
  have h2: "loaded example_lib" by (simp add: example_lib_def)
  have h3: "\<forall>d c. \<not> throws example_lib d c" by (simp add: example_lib_def)
  have h4: "finalY example_lib (title_ops @ [AutoTable (Some (?rows ! 0)) (JArr (drop 1 ?rows)) 30])
            = Some 57"
    by (simp add: example_lib_def)
  have d: "downloads hello_page = []" by (simp add: hello_page_def)
  show ?thesis
    using export_with_null_meta [OF h1 h2 h3 h4, of hello_page "[]"] h1 h2 h3 h4 d
    by (simp add: wage_table_def)
qed

text \<open>
  C6.  The sanitiser removes the matches of the pattern in one pass over the reply and
  does not look at its own result.  The reply \<^verbatim>\<open><im<img>g src=x>\<close> has one match,
  \<^verbatim>\<open><img>\<close>; with it removed, what is displayed is \<^verbatim>\<open><img src=x>\<close>, an image tag.
  The pattern is also case sensitive: \<^verbatim>\<open><IMG src=x>\<close> is displayed as it is.
\<close>

theorem img_tag_survives_stripping:
  "display_html ''<im<img>g src=x>'' = ''<img src=x>''
   \<and> has_img_tag (display_html ''<im<img>g src=x>'')
   \<and> display_html ''<IMG src=x>'' = ''<IMG src=x>''
   \<and> chatBox (sendChatMessage plain_browser 7
         (Responded True (Some (JObj [(''reply'', JStr ''<im<img>g src=x>'')]))) hello_page) =
       [Message Bot None greeting 0, Message User None ''Hello'' 0,
        Message Bot None ''<img src=x>'' 0]"
  by code_simp

text \<open>
  C9.  When \<open>addTableToChat\<close> has rendered a card for a table and a meta value (values as
  the platform parses them: the keys of an object distinct), the two arguments the click
  handler parses out of the card's \<open>dataset\<close> are that table and that meta value, and a
  click on any later page is the call of \<open>downloadTableAsPDF\<close> with them.  A table
  payload, an array of arrays of strings, is such a value (\<open>table_payload_wf\<close>), and so
  is \<open>null\<close>.
\<close>

theorem export_button_round_trip:
  assumes "addTableToChat P tableData meta s = Some s'"
    and "json_wf tableData" and "json_wf meta"
  shows "\<exists>c k. chatBox s' = chatBox s @ [Card c k]
             \<and> pdf_button_args c = Some (tableData, meta)
             \<and> (\<forall>L st. pdf_button_click L c st = downloadTableAsPDF L tableData meta st)"
proof -
  from addTableToChat_Some [OF assms(1)] obtain mb html where
    s': "s' = s\<lparr>chatBox := chatBox s @
          [Card \<lparr>card_meta = mb, table_html = html,
                 dataset_tabledata = JSON_stringify tableData,
                 dataset_meta = JSON_stringify meta\<rparr> (card_ids P mb html)]\<rparr>"
    by blast
  let ?c = "\<lparr>card_meta = mb, table_html = html,
             dataset_tabledata = JSON_stringify tableData,
             dataset_meta = JSON_stringify meta\<rparr>"
  have args: "pdf_button_args ?c = Some (tableData, meta)"
    by (simp add: pdf_button_args_def JSON_parse_stringify assms(2,3))
  have "chatBox s' = chatBox s @ [Card ?c (card_ids P mb html)]"
    by (simp add: s')
  moreover have "\<forall>L st. pdf_button_click L ?c st = downloadTableAsPDF L tableData meta st"
    by (simp add: pdf_button_click_def args)
  ultimately show ?thesis
    using args by blast
qed

theorem export_button_round_trip_witness:
  "json_wf wage_table \<and> json_wf delhi_meta
   \<and> (\<exists>s'. addTableToChat plain_browser wage_table delhi_meta hello_page = Some s'
        \<and> (\<exists>c k. chatBox s' = chatBox hello_page @ [Card c k]
              \<and> pdf_button_args c = Some (wage_table, delhi_meta)))"
proof -
  have w1: "json_wf wage_table"
    by (simp add: wage_table_def)
  have w2: "json_wf delhi_meta"
    by (simp add: delhi_meta_def)
  have "addTableToChat plain_browser wage_table delhi_meta hello_page \<noteq> None"
    by code_simp
  then obtain s' where r: "addTableToChat plain_browser wage_table delhi_meta hello_page = Some s'"
    by blast
  from export_button_round_trip [OF r w1 w2] w1 w2 r show ?thesis
    by blast
qed

end

